theory Spec2Isabelle
  imports Main "HOL-Library.AList"
begin

section \<open>Values handed to the logger\<close>

text \<open>
  The logging methods take arbitrary JavaScript values. The model keeps the shapes the
  code distinguishes: \<^verbatim>\<open>typeof arg === 'object'\<close> holds for \<^verbatim>\<open>null\<close>, arrays and
  objects; \<^verbatim>\<open>Array.isArray\<close> for arrays only. An object is its list of own properties in
  insertion order.
\<close>

datatype jsval =
    JUndefined
  | JNull
  | JBool bool
  | JNum int
  | JStr string
  | JArr "jsval list"
  | JObj "(string \<times> jsval) list"

fun typeof_object :: "jsval \<Rightarrow> bool" where
  "typeof_object JNull = True"
| "typeof_object (JArr _) = True"
| "typeof_object (JObj _) = True"
| "typeof_object _ = False"

fun isArray :: "jsval \<Rightarrow> bool" where
  "isArray (JArr _) = True"
| "isArray _ = False"

text \<open>\<^verbatim>\<open>Object.assign(target, source)\<close>: each own property of the source is written to the
  target, a later write to the same key replacing the earlier value.\<close>

fun object_assign :: "(string \<times> jsval) list \<Rightarrow> jsval \<Rightarrow> (string \<times> jsval) list" where
  "object_assign target (JObj props) = fold (\<lambda>(k, v). AList.update k v) props target"
| "object_assign target _ = target"

text \<open>
  \<^verbatim>\<open>formatMessage\<close> renders every argument and joins the pieces with a blank. The message
  is kept as the list of pieces: \<open>Json v\<close> stands for \<^verbatim>\<open>JSON.stringify(v, null, 2)\<close> and
  \<open>Plain v\<close> for \<^verbatim>\<open>String(v)\<close>. Values of \<^typ>\<open>jsval\<close> are finite trees, so the
  \<^verbatim>\<open>catch\<close> of \<^verbatim>\<open>formatMessage\<close> (a cyclic object) has no input here.
\<close>

datatype piece = Json jsval | Plain jsval

definition formatMessage :: "jsval list \<Rightarrow> piece list" where
  "formatMessage args = map (\<lambda>arg. if typeof_object arg then Json arg else Plain arg) args"

definition extractMetadata :: "jsval list \<Rightarrow> (string \<times> jsval) list" where
  "extractMetadata args =
     fold (\<lambda>(index, arg) metadata.
             if typeof_object arg \<and> arg \<noteq> JNull then
               (if index = length args - 1 \<and> \<not> isArray arg
                then object_assign metadata arg else metadata)
             else metadata)
          (zip [0..<length args] args) []"

section \<open>Log entries and the logger's state\<close>

datatype level = DEBUG | INFO | WARN | ERROR

text \<open>The numbers the logging library gives its levels; a method below the level that was
  set when the method was taken from the library prints nothing.\<close>

fun severity :: "level \<Rightarrow> nat" where
  "severity DEBUG = 1"
| "severity INFO = 2"
| "severity WARN = 3"
| "severity ERROR = 4"

record logEntry =
  timestamp :: string
  level :: level
  sessionId :: string
  url :: string
  message :: "piece list"
  metadata :: "(string \<times> jsval) list"
  userAgent :: string

text \<open>What a handler reads from its surroundings while it runs: the clock
  (\<^verbatim>\<open>new Date().toISOString()\<close>), \<^verbatim>\<open>window.location.href\<close>, \<^verbatim>\<open>navigator.userAgent\<close>, and
  whether the page-unload send primitive (\<^verbatim>\<open>sendBeacon\<close>, or the synchronous request that
  replaces it) throws.\<close>

record env =
  now :: string
  href :: string
  navUserAgent :: string
  syncSendThrows :: bool

datatype transport = ViaFetch | ViaBeacon

text \<open>A request handed to the network: \<^verbatim>\<open>POST /api/logs/client\<close> with body
  \<^verbatim>\<open>{logs, sessionId, timestamp}\<close>.\<close>

record post =
  via :: transport
  logs :: "logEntry list"
  postSessionId :: string
  postTimestamp :: string

datatype console_line =
    Echo level "jsval list"
  | ConsoleError string

text \<open>
  The fields of \<^verbatim>\<open>ClientLogger\<close>, and beside them what the class reaches outside itself:
  \<open>localStorage\<close> is the item stored under \<^verbatim>\<open>LOG_STORAGE_KEY\<close> (absent, or the stored
  array), taken to accept every write; \<open>pending\<close> holds the \<^verbatim>\<open>logsToSend\<close> of every call
  of \<^verbatim>\<open>flushLogs\<close> that is suspended at \<^verbatim>\<open>await sendLogs()\<close>; \<open>posted\<close> lists the requests
  handed to the network and \<open>console\<close> what was printed. \<open>boundLevel\<close> is the level the
  library had when \<^verbatim>\<open>originalMethods\<close> were taken from it.
\<close>

record logger =
  logQueue :: "logEntry list"
  thisSessionId :: string
  isOnline :: bool
  batchTimer :: bool
  isSending :: bool
  boundLevel :: level
  localStorage :: "logEntry list option"
  pending :: "logEntry list list"
  posted :: "post list"
  console :: "console_line list"

definition LOG_BATCH_SIZE :: nat where
  "LOG_BATCH_SIZE = 20"

definition MAX_STORED_LOGS :: nat where
  "MAX_STORED_LOGS = 100"

section \<open>The operations of ClientLogger\<close>

text \<open>\<^verbatim>\<open>originalMethods[level](...args)\<close>: the library's own method, which prints when its
  level is not below the level it was bound at.\<close>

definition originalMethods :: "level \<Rightarrow> jsval list \<Rightarrow> logger \<Rightarrow> logger" where
  "originalMethods lv args st =
     (if severity (boundLevel st) \<le> severity lv
      then st\<lparr>console := console st @ [Echo lv args]\<rparr> else st)"

text \<open>\<^verbatim>\<open>xs.slice(-n)\<close> for a positive \<open>n\<close>: the last \<open>n\<close> elements, all of them when there
  are fewer.\<close>

definition sliceLast :: "nat \<Rightarrow> 'a list \<Rightarrow> 'a list" where
  "sliceLast n xs = drop (length xs - n) xs"

definition savePendingLogs :: "logger \<Rightarrow> logger" where
  "savePendingLogs st =
     (if length (logQueue st) > 0
      then st\<lparr>localStorage := Some (sliceLast MAX_STORED_LOGS (logQueue st))\<rparr>
      else st)"

definition mkPost :: "transport \<Rightarrow> env \<Rightarrow> logger \<Rightarrow> logEntry list \<Rightarrow> post" where
  "mkPost t e st logsToSend =
     \<lparr>via = t, logs = logsToSend, postSessionId = thisSessionId st, postTimestamp = now e\<rparr>"

text \<open>The \<^verbatim>\<open>catch\<close> and \<^verbatim>\<open>finally\<close> blocks of \<^verbatim>\<open>flushLogs\<close>, for the batch \<open>logsToSend\<close>.\<close>

definition sendFailed :: "logEntry list \<Rightarrow> logger \<Rightarrow> logger" where
  "sendFailed logsToSend st =
     (let st1 = st\<lparr>logQueue := logsToSend @ logQueue st\<rparr>;
          st2 = savePendingLogs st1;
          st3 = st2\<lparr>console := console st2 @ [ConsoleError ''Failed to send logs to server:'']\<rparr>
      in st3\<lparr>isSending := False\<rparr>)"

text \<open>
  \<^verbatim>\<open>flushLogs(synchronous)\<close> up to its first suspension. On the page-unload path the
  whole body runs in one turn: the send primitive returns or throws. On the normal path
  the request is handed to \<^verbatim>\<open>fetch\<close> and the call is suspended with its batch.
\<close>

definition flushLogs :: "env \<Rightarrow> bool \<Rightarrow> logger \<Rightarrow> logger" where
  "flushLogs e synchronous st =
     (if isSending st \<or> length (logQueue st) = 0 then st
      else if \<not> isOnline st then savePendingLogs st
      else
        let logsToSend = logQueue st;
            st1 = st\<lparr>isSending := True, logQueue := []\<rparr>
        in if synchronous then
             (if syncSendThrows e then sendFailed logsToSend st1
              else st1\<lparr>posted := posted st1 @ [mkPost ViaBeacon e st1 logsToSend],
                       isSending := False\<rparr>)
           else st1\<lparr>posted := posted st1 @ [mkPost ViaFetch e st1 logsToSend],
                    pending := pending st1 @ [logsToSend]\<rparr>)"

text \<open>How a suspended \<^verbatim>\<open>fetch\<close> ends: with a response of some status, or rejected.\<close>

datatype send_outcome = Responded nat | Rejected

fun response_ok :: "send_outcome \<Rightarrow> bool" where
  "response_ok (Responded status) = (200 \<le> status \<and> status \<le> 299)"
| "response_ok Rejected = False"

text \<open>The rest of \<^verbatim>\<open>flushLogs\<close> for the \<open>i\<close>-th suspended call, once its \<^verbatim>\<open>fetch\<close> has
  ended.\<close>

definition sendDone :: "nat \<Rightarrow> send_outcome \<Rightarrow> logger \<Rightarrow> logger" where
  "sendDone i outcome st =
     (if i < length (pending st) then
        let logsToSend = pending st ! i;
            st1 = st\<lparr>pending := take i (pending st) @ drop (Suc i) (pending st)\<rparr>
        in if response_ok outcome then st1\<lparr>isSending := False\<rparr>
           else sendFailed logsToSend st1
      else st)"

definition mkEntry :: "env \<Rightarrow> logger \<Rightarrow> level \<Rightarrow> jsval list \<Rightarrow> logEntry" where
  "mkEntry e st lv args =
     \<lparr>timestamp = now e, level = lv, sessionId = thisSessionId st, url = href e,
      message = formatMessage args, metadata = extractMetadata args,
      userAgent = navUserAgent e\<rparr>"

definition addToQueue :: "env \<Rightarrow> level \<Rightarrow> jsval list \<Rightarrow> logger \<Rightarrow> logger" where
  "addToQueue e lv args st =
     (let st1 = st\<lparr>logQueue := logQueue st @ [mkEntry e st lv args]\<rparr>
      in if length (logQueue st1) \<ge> LOG_BATCH_SIZE then flushLogs e False st1 else st1)"

text \<open>The function \<^verbatim>\<open>setupInterceptors\<close> installs as \<^verbatim>\<open>log[level]\<close>; the public methods
  \<^verbatim>\<open>debug\<close>, \<^verbatim>\<open>info\<close>, \<^verbatim>\<open>warn\<close> and \<^verbatim>\<open>error\<close> call it.\<close>

definition logCall :: "env \<Rightarrow> level \<Rightarrow> jsval list \<Rightarrow> logger \<Rightarrow> logger" where
  "logCall e lv args st = addToQueue e lv args (originalMethods lv args st)"

section \<open>Construction and the handlers ClientLogger registers\<close>

text \<open>What the constructor reads from the browser: the session id kept in
  \<^verbatim>\<open>sessionStorage\<close> (if any) and the one it would generate, \<^verbatim>\<open>navigator.onLine\<close>, the build
  mode, the screen description it logs, and the backlog left in \<^verbatim>\<open>localStorage\<close>.\<close>

record browser =
  storedSessionId :: "string option"
  freshSessionId :: string
  onLine :: bool
  isDev :: bool
  mode :: string
  screen :: jsval
  storedLogs :: "logEntry list option"

definition getOrCreateSessionId :: "browser \<Rightarrow> string" where
  "getOrCreateSessionId b =
     (case storedSessionId b of
        None \<Rightarrow> freshSessionId b
      | Some s \<Rightarrow> if s = [] then freshSessionId b else s)"

definition loadPendingLogs :: "logger \<Rightarrow> logger" where
  "loadPendingLogs st =
     (case localStorage st of
        None \<Rightarrow> st
      | Some pendingLogs \<Rightarrow>
          originalMethods DEBUG
            [JStr ''Loaded'', JNum (int (length pendingLogs)), JStr ''pending logs from storage'']
            (st\<lparr>logQueue := pendingLogs @ logQueue st, localStorage := None\<rparr>))"

definition construct :: "env \<Rightarrow> browser \<Rightarrow> logger" where
  "construct e b =
     (let st0 = \<lparr>logQueue = [], thisSessionId = getOrCreateSessionId b, isOnline = onLine b,
                 batchTimer = False, isSending = False,
                 boundLevel = (if isDev b then DEBUG else INFO),
                 localStorage = storedLogs b, pending = [], posted = [], console = []\<rparr>;
          st1 = loadPendingLogs st0;
          st2 = st1\<lparr>batchTimer := True\<rparr>
      in logCall e INFO
           [JStr ''Client logger initialized'',
            JObj [(''sessionId'', JStr (thisSessionId st2)),
                  (''logLevel'', JNum (int (severity (boundLevel st2)))),
                  (''environment'', JStr (mode b)),
                  (''userAgent'', JStr (navUserAgent e)),
                  (''screen'', screen b)]]
           st2)"

text \<open>
  Everything that can happen to a constructed logger: a call of one of its logging
  methods, the browser events it listens to (with the details object the handler logs for
  an uncaught error or an unhandled rejection), a tick of the batch timer, the end of a
  suspended \<^verbatim>\<open>fetch\<close>, and \<^verbatim>\<open>destroy()\<close>. Handlers run one at a time, each to its end
  or to its suspension. These are the events of a logger whose interceptors are in place;
  \<^verbatim>\<open>setLevel\<close>, which replaces them, is treated with the logging library further down.
\<close>

datatype event =
    Log level "jsval list"
  | Online
  | Offline
  | BeforeUnload
  | VisibilityChange bool
  | UncaughtError jsval
  | UnhandledRejection jsval
  | TimerTick
  | FetchEnded nat send_outcome
  | Destroy

fun step :: "env \<Rightarrow> event \<Rightarrow> logger \<Rightarrow> logger" where
  "step e (Log lv args) st = logCall e lv args st"
| "step e Online st =
     flushLogs e False (originalMethods INFO [JStr ''Connection restored''] (st\<lparr>isOnline := True\<rparr>))"
| "step e Offline st =
     originalMethods WARN [JStr ''Connection lost - logs will be queued''] (st\<lparr>isOnline := False\<rparr>)"
| "step e BeforeUnload st = flushLogs e True st"
| "step e (VisibilityChange hidden) st =
     (if hidden then flushLogs e False (originalMethods DEBUG [JStr ''Page hidden - flushing logs''] st)
      else originalMethods DEBUG [JStr ''Page visible''] st)"
| "step e (UncaughtError details) st = logCall e ERROR [JStr ''Uncaught error'', details] st"
| "step e (UnhandledRejection details) st =
     logCall e ERROR [JStr ''Unhandled promise rejection'', details] st"
| "step e TimerTick st =
     (if batchTimer st then (if length (logQueue st) > 0 then flushLogs e False st else st) else st)"
| "step e (FetchEnded i outcome) st = sendDone i outcome st"
| "step e Destroy st = flushLogs e True (st\<lparr>batchTimer := False\<rparr>)"

definition run :: "(env \<times> event) list \<Rightarrow> logger \<Rightarrow> logger" where
  "run evs st = fold (\<lambda>(e, ev). step e ev) evs st"

text \<open>The link between the flag and the suspended calls: while \<^verbatim>\<open>isSending\<close> is set exactly
  one call of \<^verbatim>\<open>flushLogs\<close> is suspended, and none otherwise.\<close>

definition one_in_flight :: "logger \<Rightarrow> bool" where
  "one_in_flight st = (if isSending st then length (pending st) = 1 else pending st = [])"

text \<open>A series of logging calls, each with its surroundings, as events; the entries
  these calls create in a logger; and everything a logger still holds: the batches of its
  suspended sends followed by its queue.\<close>

definition logEvents :: "(env \<times> level \<times> jsval list) list \<Rightarrow> (env \<times> event) list" where
  "logEvents calls = map (\<lambda>(e, lv, args). (e, Log lv args)) calls"

definition entriesOf :: "logger \<Rightarrow> (env \<times> level \<times> jsval list) list \<Rightarrow> logEntry list" where
  "entriesOf st calls = map (\<lambda>(e, lv, args). mkEntry e st lv args) calls"

definition buffered :: "logger \<Rightarrow> logEntry list" where
  "buffered st = concat (pending st) @ logQueue st"

section \<open>The logging library and \<^verbatim>\<open>setLevel\<close>\<close>

text \<open>
  The logger works through the object \<^verbatim>\<open>log\<close> of the logging library, which is not part
  of the repository. Two facts about that object matter: the level it is set to (what
  \<^verbatim>\<open>log.getLevel()\<close> returns, a number from 0 for \<^verbatim>\<open>trace\<close> to 5 for \<^verbatim>\<open>silent\<close>), and
  whether its methods \<^verbatim>\<open>debug\<close>, \<^verbatim>\<open>info\<close>, \<^verbatim>\<open>warn\<close> and \<^verbatim>\<open>error\<close> are still the functions
  that \<^verbatim>\<open>setupInterceptors\<close> assigned. The library's \<^verbatim>\<open>setLevel\<close> assigns its own methods
  anew, built for the new level, so a call of it replaces the interceptors. \<open>core\<close> is
  the logger of the sections above.
\<close>

record facade =
  core :: logger
  interceptorsInstalled :: bool
  libraryLevel :: nat

text \<open>The constructor seen together with the library: it sets the level by the build mode
  and installs the interceptors.\<close>

definition constructFacade :: "env \<Rightarrow> browser \<Rightarrow> facade" where
  "constructFacade e b =
     \<lparr>core = construct e b, interceptorsInstalled = True,
      libraryLevel = severity (if isDev b then DEBUG else INFO)\<rparr>"

text \<open>A method the library has built for its current level: it prints when its level is
  not below that level, and does nothing else.\<close>

definition libraryMethod :: "level \<Rightarrow> jsval list \<Rightarrow> facade \<Rightarrow> facade" where
  "libraryMethod lv args f =
     (if libraryLevel f \<le> severity lv
      then f\<lparr>core := (core f)\<lparr>console := console (core f) @ [Echo lv args]\<rparr>\<rparr>
      else f)"

text \<open>The public methods \<^verbatim>\<open>debug\<close>, \<^verbatim>\<open>info\<close>, \<^verbatim>\<open>warn\<close> and \<^verbatim>\<open>error\<close> of \<^verbatim>\<open>ClientLogger\<close>:
  each calls \<^verbatim>\<open>log[level](...args)\<close>, whatever function that is at the time.\<close>

definition publicLog :: "env \<Rightarrow> level \<Rightarrow> jsval list \<Rightarrow> facade \<Rightarrow> facade" where
  "publicLog e lv args f =
     (if interceptorsInstalled f then f\<lparr>core := logCall e lv args (core f)\<rparr>
      else libraryMethod lv args f)"

text \<open>\<^verbatim>\<open>setLevel(level)\<close> and \<^verbatim>\<open>getLevel()\<close> of \<^verbatim>\<open>ClientLogger\<close>. The library throws on a
  level it does not know (the result \<open>None\<close>: nothing has changed and the line that
  follows is not reached); otherwise the level is set, the library's own methods take the
  place of the interceptors, and the change is logged at level \<^verbatim>\<open>info\<close> through the
  public method.\<close>

definition setLevel :: "env \<Rightarrow> nat \<Rightarrow> facade \<Rightarrow> facade option" where
  "setLevel e n f =
     (if n \<le> 5
      then Some (publicLog e INFO [JStr ''Log level changed to:'', JNum (int n)]
                   (f\<lparr>libraryLevel := n, interceptorsInstalled := False\<rparr>))
      else None)"

definition getLevel :: "facade \<Rightarrow> nat" where
  "getLevel f = libraryLevel f"

text \<open>
  What happens to the logger and the library together: \<^verbatim>\<open>setLevel\<close> is called, or one of
  the events of the logger occurs. A logging call, and the handlers of an uncaught error
  and of an unhandled rejection, go through the public methods; the other handlers do not
  touch the library.
\<close>

datatype facadeEvent = SetLevel nat | Browser event

fun facadeStep :: "env \<Rightarrow> facadeEvent \<Rightarrow> facade \<Rightarrow> facade" where
  "facadeStep e (SetLevel n) f = (case setLevel e n f of None \<Rightarrow> f | Some f' \<Rightarrow> f')"
| "facadeStep e (Browser (Log lv args)) f = publicLog e lv args f"
| "facadeStep e (Browser (UncaughtError details)) f =
     publicLog e ERROR [JStr ''Uncaught error'', details] f"
| "facadeStep e (Browser (UnhandledRejection details)) f =
     publicLog e ERROR [JStr ''Unhandled promise rejection'', details] f"
| "facadeStep e (Browser ev) f = f\<lparr>core := step e ev (core f)\<rparr>"

definition facadeRun :: "(env \<times> facadeEvent) list \<Rightarrow> facade \<Rightarrow> facade" where
  "facadeRun evs f = fold (\<lambda>(e, ev). facadeStep e ev) evs f"

text \<open>Whether a series of events holds a call of \<^verbatim>\<open>setLevel\<close> that the library accepts,
  and the level the library has after the series when it had level \<open>t\<close> before.\<close>

definition levelWasSet :: "(env \<times> facadeEvent) list \<Rightarrow> bool" where
  "levelWasSet evs =
     list_ex (\<lambda>(e, ev). case ev of SetLevel n \<Rightarrow> n \<le> 5 | Browser b \<Rightarrow> False) evs"

definition levelAfter :: "nat \<Rightarrow> (env \<times> facadeEvent) list \<Rightarrow> nat" where
  "levelAfter t evs =
     fold (\<lambda>(e, ev) t'. case ev of SetLevel n \<Rightarrow> if n \<le> 5 then n else t' | Browser b \<Rightarrow> t')
       evs t"

section \<open>The API client\<close>

text \<open>
  The second module wraps an HTTP client with a request interceptor and a response
  interceptor; both log through the logger above. A request configuration carries the
  fields the interceptors read and write: \<^verbatim>\<open>method\<close>, \<^verbatim>\<open>url\<close>, \<^verbatim>\<open>params\<close>, \<^verbatim>\<open>data\<close>,
  \<^verbatim>\<open>headers\<close>, and the two the interceptors add, \<^verbatim>\<open>requestId\<close> and \<^verbatim>\<open>_retry\<close>. A field
  that may be \<^verbatim>\<open>undefined\<close> is an option.
\<close>

record config =
  reqMethod :: "string option"
  reqUrl :: "string option"
  reqParams :: "(string \<times> jsval) list option"
  reqData :: jsval
  reqHeaders :: "(string \<times> jsval) list"
  requestId :: "string option"
  retry :: bool

record response =
  status :: nat
  statusText :: string
  respData :: jsval
  respDataText :: string

text \<open>The error the HTTP client rejects with: the configuration of the request
  (\<^verbatim>\<open>error.config\<close>), the response if one was received, whether a request was made
  (\<^verbatim>\<open>error.request\<close>), the message and the stack.\<close>

record axiosError =
  errConfig :: "config option"
  errResponse :: "response option"
  errRequest :: bool
  errMessage :: string
  errStack :: string

text \<open>What an interceptor reads from the clock and the random generator: \<^verbatim>\<open>Date.now()\<close>,
  the request id built from \<^verbatim>\<open>Date.now()\<close> and \<^verbatim>\<open>Math.random()\<close>, and
  \<^verbatim>\<open>performance.now()\<close>.\<close>

record clock =
  dateNow :: int
  freshRequestId :: string
  perfNow :: int

text \<open>
  The state the interceptors work on: the logger, the map \<^verbatim>\<open>requestTimings\<close>, the
  notifications shown (\<^verbatim>\<open>toast.error\<close>), the requests handed to the HTTP client, the number
  of calls of \<^verbatim>\<open>authStore.refreshAccessToken()\<close>, whether \<^verbatim>\<open>authStore.logout()\<close> was called
  and the address the page was sent to.
\<close>

record client =
  clientLogger :: logger
  requestTimings :: "(string \<times> int) list"
  toasts :: "jsval list"
  dispatched :: "config list"
  refreshCalls :: nat
  loggedOut :: bool
  location :: "string option"

subsection \<open>JavaScript helpers\<close>

fun truthy :: "jsval \<Rightarrow> bool" where
  "truthy JUndefined = False"
| "truthy JNull = False"
| "truthy (JBool b) = b"
| "truthy (JNum n) = (n \<noteq> 0)"
| "truthy (JStr s) = (s \<noteq> [])"
| "truthy (JArr _) = True"
| "truthy (JObj _) = True"

text \<open>\<^verbatim>\<open>v?.k\<close> on response data: the property of an object, \<^verbatim>\<open>undefined\<close> otherwise.\<close>

fun getProp :: "jsval \<Rightarrow> string \<Rightarrow> jsval" where
  "getProp (JObj props) k = (case map_of props k of Some v \<Rightarrow> v | None \<Rightarrow> JUndefined)"
| "getProp _ k = JUndefined"

definition jsOr :: "jsval \<Rightarrow> jsval \<Rightarrow> jsval" where
  "jsOr a b = (if truthy a then a else b)"

definition optStr :: "string option \<Rightarrow> jsval" where
  "optStr s = (case s of None \<Rightarrow> JUndefined | Some t \<Rightarrow> JStr t)"

definition optObj :: "(string \<times> jsval) list option \<Rightarrow> jsval" where
  "optObj ps = (case ps of None \<Rightarrow> JUndefined | Some props \<Rightarrow> JObj props)"

text \<open>An optional string inside a template literal.\<close>

definition optText :: "string option \<Rightarrow> string" where
  "optText s = (case s of None \<Rightarrow> ''undefined'' | Some t \<Rightarrow> t)"

definition upperChar :: "char \<Rightarrow> char" where
  "upperChar ch =
     (let n = (of_char ch :: nat) in if 97 \<le> n \<and> n \<le> 122 then char_of (n - 32) else ch)"

definition toUpperCase :: "string \<Rightarrow> string" where
  "toUpperCase s = map upperChar s"

fun startsWith :: "string \<Rightarrow> string \<Rightarrow> bool" where
  "startsWith s [] = True"
| "startsWith [] (y # ys) = False"
| "startsWith (x # xs) (y # ys) = (x = y \<and> startsWith xs ys)"

fun includes_str :: "string \<Rightarrow> string \<Rightarrow> bool" where
  "includes_str [] sub = (sub = [])"
| "includes_str (x # xs) sub = (startsWith (x # xs) sub \<or> includes_str xs sub)"

subsection \<open>The request interceptor\<close>

definition logger_log :: "level \<Rightarrow> env \<Rightarrow> jsval list \<Rightarrow> client \<Rightarrow> client" where
  "logger_log lv e args c = c\<lparr>clientLogger := logCall e lv args (clientLogger c)\<rparr>"

definition requestLine :: "string \<Rightarrow> config option \<Rightarrow> string" where
  "requestLine label cfg =
     label @ optText (map_option toUpperCase (Option.bind cfg reqMethod)) @ '' '' @
       optText (Option.bind cfg reqUrl)"

definition requestInterceptor :: "env \<Rightarrow> clock \<Rightarrow> config \<Rightarrow> client \<Rightarrow> config \<times> client" where
  "requestInterceptor e k config c =
     (let rid = freshRequestId k;
          config1 = config\<lparr>requestId := Some rid\<rparr>;
          c1 = c\<lparr>requestTimings := AList.update rid (perfNow k) (requestTimings c)\<rparr>;
          c2 = logger_log DEBUG e
                 [JStr (requestLine ''API Request: '' (Some config1)),
                  JObj [(''method'', optStr (reqMethod config1)),
                        (''url'', optStr (reqUrl config1)),
                        (''params'', optObj (reqParams config1)),
                        (''data'', reqData config1),
                        (''headers'', JObj (reqHeaders config1)),
                        (''requestId'', JStr rid)]] c1;
          config2 = (if reqMethod config1 = Some ''get''
                     then config1\<lparr>reqParams :=
                            Some (AList.update ''_t'' (JNum (dateNow k))
                                    (case reqParams config1 of None \<Rightarrow> [] | Some ps \<Rightarrow> ps))\<rparr>
                     else config1)
      in (config2, c2))"

text \<open>\<^verbatim>\<open>api(config)\<close>: the request interceptor runs and the request is handed to the HTTP
  client.\<close>

definition api :: "env \<Rightarrow> clock \<Rightarrow> config \<Rightarrow> client \<Rightarrow> config \<times> client" where
  "api e k config c =
     (let (config', c') = requestInterceptor e k config c
      in (config', c'\<lparr>dispatched := dispatched c' @ [config']\<rparr>))"

subsection \<open>The response interceptor\<close>

text \<open>The duration of a request and the removal of its entry from \<^verbatim>\<open>requestTimings\<close>. The
  source prints the duration with two decimals and the unit; the model keeps the number.\<close>

definition takeTiming :: "clock \<Rightarrow> string option \<Rightarrow> client \<Rightarrow> int \<times> client" where
  "takeTiming k rid c =
     (case rid of
        None \<Rightarrow> (0, c)
      | Some r \<Rightarrow>
          (case (if r = [] then None else map_of (requestTimings c) r) of
             None \<Rightarrow> (0, c)
           | Some start \<Rightarrow>
               (perfNow k - start, c\<lparr>requestTimings := AList.delete r (requestTimings c)\<rparr>)))"

definition responseFulfilled :: "env \<Rightarrow> clock \<Rightarrow> config \<Rightarrow> response \<Rightarrow> client \<Rightarrow> client" where
  "responseFulfilled e k config r c =
     (let (duration, c1) = takeTiming k (requestId config) c
      in logger_log DEBUG e
           [JStr (requestLine ''API Response: '' (Some config)),
            JObj [(''status'', JNum (int (status r))),
                  (''statusText'', JStr (statusText r)),
                  (''duration'', JNum duration),
                  (''requestId'', optStr (requestId config)),
                  (''dataSize'', JNum (int (length (respDataText r))))]] c1)"

text \<open>How the rejection handler ends when it does not reissue the request: it rejects
  with the error, or it throws a \<^verbatim>\<open>TypeError\<close> on reading a field of an absent
  configuration (which rejects as well).\<close>

datatype settled = RejectedWith axiosError | TypeErrorThrown

text \<open>The part of the rejection handler after the 401 block: the log entry by class of
  error, the notification, and the rejection.\<close>

definition classify :: "env \<Rightarrow> axiosError \<Rightarrow> (string \<times> jsval) list \<Rightarrow> client \<Rightarrow> settled \<times> client" where
  "classify e error errorDetails c =
     (case errResponse error of
        Some r \<Rightarrow>
          (let message = jsOr (getProp (respData r) ''detail'')
                           (jsOr (getProp (respData r) ''message'') (JStr ''An error occurred''));
               c1 = (if status r \<ge> 500
                     then logger_log ERROR e
                            [JStr (requestLine ''API Server Error: '' (errConfig error)),
                             JObj errorDetails] c
                     else if status r \<ge> 400
                     then logger_log WARN e
                            [JStr (requestLine ''API Client Error: '' (errConfig error)),
                             JObj errorDetails] c
                     else c)
           in case errConfig error of
                None \<Rightarrow> (TypeErrorThrown, c1)
              | Some cfg \<Rightarrow>
                  (if \<not> (case reqUrl cfg of None \<Rightarrow> False | Some u \<Rightarrow> includes_str u ''/auth/status'')
                   then (RejectedWith error, c1\<lparr>toasts := toasts c1 @ [message]\<rparr>)
                   else (RejectedWith error, c1)))
      | None \<Rightarrow>
          (if errRequest error
           then (RejectedWith error,
                 (logger_log ERROR e
                    [JStr ''API Network Error - No response received'', JObj errorDetails] c)
                 \<lparr>toasts := toasts c @
                    [JStr ''No response from server. Please check your connection.'']\<rparr>)
           else (RejectedWith error,
                 (logger_log ERROR e
                    [JStr ''API Unexpected Error'',
                     JObj (AList.update ''stack'' (JStr (errStack error)) errorDetails)] c)
                 \<lparr>toasts := toasts c @ [JStr ''An unexpected error occurred'']\<rparr>)))"

text \<open>Where the rejection handler stands after its first turn: settled, or suspended at
  \<^verbatim>\<open>await authStore.refreshAccessToken()\<close> with the error, the details and the request
  it has marked. The import of the store module that precedes the call is taken to resolve
  at once, so the call of the refresh is counted in this turn.\<close>

datatype stage = Settled settled | AwaitingRefresh axiosError "(string \<times> jsval) list" config

definition mkErrorDetails :: "axiosError \<Rightarrow> int \<Rightarrow> (string \<times> jsval) list" where
  "mkErrorDetails error duration =
     [(''method'', optStr (Option.bind (errConfig error) reqMethod)),
      (''url'', optStr (Option.bind (errConfig error) reqUrl)),
      (''status'', (case errResponse error of None \<Rightarrow> JUndefined
                    | Some r \<Rightarrow> JNum (int (status r)))),
      (''statusText'', (case errResponse error of None \<Rightarrow> JUndefined
                        | Some r \<Rightarrow> JStr (statusText r))),
      (''duration'', JNum duration),
      (''requestId'', optStr (Option.bind (errConfig error) requestId)),
      (''message'', JStr (errMessage error)),
      (''responseData'', (case errResponse error of None \<Rightarrow> JUndefined
                          | Some r \<Rightarrow> respData r))]"

definition responseRejected :: "env \<Rightarrow> clock \<Rightarrow> axiosError \<Rightarrow> client \<Rightarrow> stage \<times> client" where
  "responseRejected e k error c =
     (let (duration, c1) = takeTiming k (Option.bind (errConfig error) requestId) c;
          errorDetails = mkErrorDetails error duration
      in if map_option status (errResponse error) = Some 401 then
           (case errConfig error of
              None \<Rightarrow> (Settled TypeErrorThrown, c1)
            | Some originalRequest \<Rightarrow>
                if \<not> retry originalRequest then
                  (let marked = originalRequest\<lparr>retry := True\<rparr>;
                       c2 = logger_log INFO e
                              [JStr ''Token expired, attempting refresh'',
                               JObj [(''url'', optStr (reqUrl marked))]] c1
                   in (AwaitingRefresh (error\<lparr>errConfig := Some marked\<rparr>) errorDetails marked,
                       c2\<lparr>refreshCalls := refreshCalls c2 + 1\<rparr>))
                else (case classify e error errorDetails c1 of (s, c2) \<Rightarrow> (Settled s, c2)))
         else (case classify e error errorDetails c1 of (s, c2) \<Rightarrow> (Settled s, c2)))"

text \<open>How the 401 block ends: the request was reissued and the handler returns the
  promise of the reissued request, or the handler settles as above.\<close>

datatype resumed = Reissued config | Surfaced settled

text \<open>The rest of the 401 block once \<^verbatim>\<open>refreshAccessToken()\<close> has resolved with
  \<open>success\<close>, \<open>accessToken\<close> being what \<^verbatim>\<open>authStore.accessToken\<close> then reads.\<close>

definition refreshResolved ::
  "env \<Rightarrow> clock \<Rightarrow> bool \<Rightarrow> string option \<Rightarrow> axiosError \<Rightarrow> (string \<times> jsval) list \<Rightarrow> config \<Rightarrow>
   client \<Rightarrow> resumed \<times> client" where
  "refreshResolved e k success accessToken error errorDetails originalRequest c =
     (if success then
        (let c1 = logger_log INFO e [JStr ''Token refreshed successfully, retrying request''] c;
             withToken = originalRequest\<lparr>reqHeaders :=
                 AList.update ''Authorization'' (JStr (''Bearer '' @ optText accessToken))
                   (reqHeaders originalRequest)\<rparr>
         in case api e k withToken c1 of (sent, c2) \<Rightarrow> (Reissued sent, c2))
      else
        (let c1 = logger_log WARN e [JStr ''Token refresh failed, logging out user''] c;
             c2 = c1\<lparr>loggedOut := True, location := Some ''/login''\<rparr>
         in case classify e error errorDetails c2 of (s, c3) \<Rightarrow> (Surfaced s, c3)))"

subsection \<open>One call through the client\<close>

text \<open>
  What lies outside the client during one call: the answer of the backend to a request
  as it was sent (a response the HTTP client accepts, or a failure with or without a
  response), the outcome of \<^verbatim>\<open>refreshAccessToken()\<close> together with the token the store
  holds afterwards, and the surroundings of the first and of the reissued attempt
  (indexed by \<^verbatim>\<open>_retry\<close>).
\<close>

datatype reply = Success response | Failure "response option" bool string string

record world =
  server :: "config \<Rightarrow> reply"
  refreshSucceeds :: bool
  tokenAfterRefresh :: "string option"
  envAt :: "bool \<Rightarrow> env"
  clockAt :: "bool \<Rightarrow> clock"

datatype result = Fulfilled response | Rejection settled

lemma requestInterceptor_retry:
  "requestInterceptor e k config c = (config', c') \<Longrightarrow> retry config' = retry config"
  by (auto simp: requestInterceptor_def Let_def split: if_splits)

lemma api_retry: "api e k config c = (sent, c') \<Longrightarrow> retry sent = retry config"
  by (auto simp: api_def Let_def split: prod.splits dest: requestInterceptor_retry)

lemma responseRejected_awaiting:
  "responseRejected e k error c = (AwaitingRefresh error' details marked, c') \<Longrightarrow>
     \<exists>orig. errConfig error = Some orig \<and> \<not> retry orig \<and> marked = orig\<lparr>retry := True\<rparr>"
  by (auto simp: responseRejected_def Let_def split: prod.splits option.splits if_splits)

lemma refreshResolved_reissued:
  "refreshResolved e k success token error details marked c = (Reissued sent, c') \<Longrightarrow>
     retry sent = retry marked"
  by (auto simp: refreshResolved_def Let_def split: prod.splits if_splits dest: api_retry)

text \<open>
  \<open>settle\<close> follows a request that was sent until the promise the caller holds settles:
  the response interceptor runs on the answer, and when its 401 block reissues the request
  the caller's promise becomes that of the reissued request. \<open>apiCall\<close> is \<^verbatim>\<open>api(config)\<close>
  seen from the caller.
\<close>

function settle :: "world \<Rightarrow> config \<Rightarrow> client \<Rightarrow> result \<times> client" where
  "settle w sent c =
     (case server w sent of
        Success r \<Rightarrow>
          (Fulfilled r, responseFulfilled (envAt w (retry sent)) (clockAt w (retry sent)) sent r c)
      | Failure resp req msg stack \<Rightarrow>
          (case responseRejected (envAt w (retry sent)) (clockAt w (retry sent))
                  \<lparr>errConfig = Some sent, errResponse = resp, errRequest = req,
                   errMessage = msg, errStack = stack\<rparr> c of
             (Settled s, c1) \<Rightarrow> (Rejection s, c1)
           | (AwaitingRefresh error details marked, c1) \<Rightarrow>
               (case refreshResolved (envAt w True) (clockAt w True) (refreshSucceeds w)
                       (tokenAfterRefresh w) error details marked c1 of
                  (Reissued sent', c2) \<Rightarrow> settle w sent' c2
                | (Surfaced s, c2) \<Rightarrow> (Rejection s, c2))))"
  by pat_completeness auto
termination
proof (relation "measure (\<lambda>(w, sent, c). if retry sent then 0 else 1)")
  show "wf (measure (\<lambda>(w, sent, c). if retry sent then 0 else (1::nat)))" by simp
next
  fix w :: world and sent :: config and c :: client
    and resp req msg stack st c1 error details marked rs c2 sent'
  assume "server w sent = Failure resp req msg stack"
    and rej: "(st, c1) = responseRejected (envAt w (retry sent)) (clockAt w (retry sent))
                  \<lparr>errConfig = Some sent, errResponse = resp, errRequest = req,
                   errMessage = msg, errStack = stack\<rparr> c"
    and st: "st = AwaitingRefresh error details marked"
    and res: "(rs, c2) = refreshResolved (envAt w True) (clockAt w True) (refreshSucceeds w)
                       (tokenAfterRefresh w) error details marked c1"
    and rs: "rs = Reissued sent'"
  from rej st have "\<not> retry sent \<and> marked = sent\<lparr>retry := True\<rparr>"
    using responseRejected_awaiting [of "envAt w (retry sent)" "clockAt w (retry sent)"
        "\<lparr>errConfig = Some sent, errResponse = resp, errRequest = req,
          errMessage = msg, errStack = stack\<rparr>" c error details marked c1]
    by auto
  moreover from res rs have "retry sent' = retry marked"
    using refreshResolved_reissued by metis
  ultimately show "((w, sent', c2), (w, sent, c)) \<in>
      measure (\<lambda>(w, sent, c). if retry sent then 0 else (1::nat))"
    by simp
qed

declare settle.simps [simp del]

definition apiCall :: "world \<Rightarrow> config \<Rightarrow> client \<Rightarrow> result \<times> client" where
  "apiCall w config c =
     (case api (envAt w (retry config)) (clockAt w (retry config)) config c of
        (sent, c1) \<Rightarrow> settle w sent c1)"

subsection \<open>The credential store and handlers that wait for it\<close>

text \<open>Modelled from the spec: the store behind \<^verbatim>\<open>authStore.refreshAccessToken()\<close>
  (\<^verbatim>\<open>stores/authStore\<close>) is not among the sources. The specification of the
  AuthCoordinator requires its refresh to be single-flight: the first caller performs the
  refresh; callers that arrive while it runs do not start another one, they await it and
  share its outcome. On success the shared credential is updated and all waiters resolve
  with success; on failure all waiters resolve with failure and the cached credential is
  cleared. \<open>waiters\<close> names the callers by number, and \<open>refreshesPerformed\<close> counts the
  refreshes that were started.
\<close>

record coordinator =
  credential :: "string option"
  refreshing :: bool
  waiters :: "nat list"
  refreshesPerformed :: nat

text \<open>Modelled from the spec: a call of the store's \<^verbatim>\<open>refreshAccessToken()\<close>, whose code is
  not among the sources. The first caller starts the refresh; a caller that arrives while
  one runs joins its waiters.\<close>

definition refreshAccessToken :: "nat \<Rightarrow> coordinator \<Rightarrow> coordinator" where
  "refreshAccessToken caller co =
     (if refreshing co then co\<lparr>waiters := waiters co @ [caller]\<rparr>
      else co\<lparr>refreshing := True, waiters := [caller],
              refreshesPerformed := refreshesPerformed co + 1\<rparr>)"

text \<open>Modelled from the spec: the end of the store's running refresh, whose code is not
  among the sources. With a token the shared credential is updated, without one it is
  cleared; the waiters are released with that one outcome.\<close>

definition refreshEnded :: "string option \<Rightarrow> coordinator \<Rightarrow> coordinator" where
  "refreshEnded outcome co = co\<lparr>credential := outcome, refreshing := False, waiters := []\<rparr>"

text \<open>
  The client together with the store: the rejection handlers that are suspended at the
  refresh, each under the number it waits with, and the rejections that reached callers.
  Two things happen to it: a request fails and the rejection handler of the response
  interceptor runs its first turn; or the refresh ends, with a token or without, and every
  waiting handler runs to its end with the shared outcome, in the order of arrival,
  reading the credential the store then holds.
\<close>

record system =
  theClient :: client
  store :: coordinator
  suspended :: "(nat \<times> axiosError \<times> (string \<times> jsval) list \<times> config) list"
  nextCaller :: nat
  rejections :: "settled list"

datatype happening = RequestFailed axiosError | RefreshEnded "string option"

definition resumeHandler ::
  "env \<Rightarrow> (nat \<Rightarrow> clock) \<Rightarrow> bool \<Rightarrow> string option \<Rightarrow> nat \<Rightarrow> system \<Rightarrow> system" where
  "resumeHandler e kf success token caller s =
     (case map_of (suspended s) caller of
        None \<Rightarrow> s
      | Some (error, details, marked) \<Rightarrow>
          (case refreshResolved e (kf caller) success token error details marked (theClient s) of
             (Reissued sent, c') \<Rightarrow>
               s\<lparr>theClient := c', suspended := AList.delete caller (suspended s)\<rparr>
           | (Surfaced r, c') \<Rightarrow>
               s\<lparr>theClient := c', suspended := AList.delete caller (suspended s),
                 rejections := rejections s @ [r]\<rparr>))"

fun happen :: "env \<Rightarrow> (nat \<Rightarrow> clock) \<Rightarrow> happening \<Rightarrow> system \<Rightarrow> system" where
  "happen e kf (RequestFailed error) s =
     (case responseRejected e (kf (nextCaller s)) error (theClient s) of
        (Settled r, c') \<Rightarrow> s\<lparr>theClient := c', rejections := rejections s @ [r]\<rparr>
      | (AwaitingRefresh error' details marked, c') \<Rightarrow>
          s\<lparr>theClient := c', store := refreshAccessToken (nextCaller s) (store s),
            suspended := suspended s @ [(nextCaller s, error', details, marked)],
            nextCaller := nextCaller s + 1\<rparr>)"
| "happen e kf (RefreshEnded outcome) s =
     (if refreshing (store s) then
        fold (resumeHandler e kf (outcome \<noteq> None) (credential (refreshEnded outcome (store s))))
          (waiters (store s)) (s\<lparr>store := refreshEnded outcome (store s)\<rparr>)
      else s)"

section \<open>Sample inputs\<close>

text \<open>Concrete surroundings, entries and browsers on which the theorems below are
  instantiated.\<close>

definition sampleEnv :: env where
  "sampleEnv = \<lparr>now = ''2025-01-01T00:00:00.000Z'', href = ''http://localhost/logs'',
                navUserAgent = ''agent'', syncSendThrows = False\<rparr>"

definition sampleEntry :: "int \<Rightarrow> logEntry" where
  "sampleEntry n = \<lparr>timestamp = ''2024-12-31T23:59:59.000Z'', level = INFO, sessionId = ''s0'',
     url = ''http://localhost/'', message = [Plain (JNum n)], metadata = [], userAgent = ''agent''\<rparr>"

definition sampleBrowser :: "bool \<Rightarrow> logEntry list option \<Rightarrow> browser" where
  "sampleBrowser online stored = \<lparr>storedSessionId = None, freshSessionId = ''s1'', onLine = online,
     isDev = False, mode = ''production'', screen = JNull, storedLogs = stored\<rparr>"

definition throwingEnv :: env where
  "throwingEnv = sampleEnv\<lparr>syncSendThrows := True\<rparr>"

text \<open>A production logger that starts online with an empty backlog; the same after two
  more calls; and after eighteen more calls.\<close>

definition production :: logger where
  "production = construct sampleEnv (sampleBrowser True None)"

definition threeQueued :: logger where
  "threeQueued =
     run (logEvents [(sampleEnv, INFO, [JStr ''A'']), (sampleEnv, INFO, [JStr ''B''])]) production"

definition nineteenQueued :: logger where
  "nineteenQueued = run (replicate 18 (sampleEnv, Log INFO [JStr ''x''])) production"

text \<open>A logger that starts online with a backlog of a hundred entries: its constructor
  adds one entry and, the queue being over the batch size, sends all hundred and one.\<close>

definition hundredStored :: logger where
  "hundredStored = construct sampleEnv (sampleBrowser True (Some (map sampleEntry [1..100])))"

text \<open>A logger that starts online with a backlog of nineteen entries, so that its
  constructor sends twenty at once. While that send is in flight: the connection is lost
  and one entry is logged; or nineteen entries are logged.\<close>

definition offlineWhileSending :: logger where
  "offlineWhileSending =
     run [(sampleEnv, Offline), (sampleEnv, Log INFO [JStr ''x''])]
       (construct sampleEnv (sampleBrowser True (Some (map sampleEntry [1..19]))))"

definition nineteenWhileSending :: logger where
  "nineteenWhileSending =
     run (replicate 19 (sampleEnv, Log INFO [JStr ''x'']))
       (construct sampleEnv (sampleBrowser True (Some (map sampleEntry [1..19]))))"

text \<open>The scenario of logging A, B and C, losing the connection and logging D.\<close>

definition fourThenOffline :: logger where
  "fourThenOffline =
     run [(sampleEnv, Log INFO [JStr ''A'']), (sampleEnv, Log INFO [JStr ''B'']),
          (sampleEnv, Log INFO [JStr ''C'']), (sampleEnv, Offline),
          (sampleEnv, Log INFO [JStr ''D''])] production"

text \<open>Sample requests, clocks, a client over the production logger, and a response of
  status 500.\<close>

definition sampleClock :: "bool \<Rightarrow> clock" where
  "sampleClock again =
     (if again then \<lparr>dateNow = 2000, freshRequestId = ''2000-bbb'', perfNow = 50\<rparr>
      else \<lparr>dateNow = 1000, freshRequestId = ''1000-aaa'', perfNow = 10\<rparr>)"

definition freshClient :: client where
  "freshClient = \<lparr>clientLogger = production, requestTimings = [], toasts = [], dispatched = [],
                   refreshCalls = 0, loggedOut = False, location = None\<rparr>"

definition getRequest :: "string \<Rightarrow> config" where
  "getRequest u = \<lparr>reqMethod = Some ''get'', reqUrl = Some u, reqParams = None,
                    reqData = JUndefined,
                    reqHeaders = [(''Content-Type'', JStr ''application/json'')],
                    requestId = None, retry = False\<rparr>"

definition withAuthorization :: "string \<Rightarrow> config \<Rightarrow> config" where
  "withAuthorization token cfg =
     cfg\<lparr>reqHeaders := AList.update ''Authorization'' (JStr (''Bearer '' @ token)) (reqHeaders cfg)\<rparr>"

definition failedWith :: "nat \<Rightarrow> config \<Rightarrow> axiosError" where
  "failedWith code cfg =
     \<lparr>errConfig = Some cfg,
      errResponse = Some \<lparr>status = code, statusText = ''failed'',
                           respData = JObj [(''detail'', JStr ''backend says no'')],
                           respDataText = ''{}''\<rparr>,
      errRequest = True, errMessage = ''Request failed'', errStack = ''stack''\<rparr>"

text \<open>A backend that answers every request with status 401, and a store whose refresh
  succeeds and then holds the token \<^verbatim>\<open>fresh-token\<close>.\<close>

definition unauthorized :: response where
  "unauthorized = \<lparr>status = 401, statusText = ''Unauthorized'',
                    respData = JObj [(''detail'', JStr ''Not authenticated'')],
                    respDataText = ''{}''\<rparr>"

definition always401 :: world where
  "always401 =
     \<lparr>server = (\<lambda>cfg. Failure (Some unauthorized) True ''Request failed with status code 401''
                          ''stack''),
      refreshSucceeds = True, tokenAfterRefresh = Some ''fresh-token'',
      envAt = (\<lambda>again. sampleEnv), clockAt = sampleClock\<rparr>"

text \<open>A quiet system over the fresh client whose store holds a stale token, and the
  clock of the handler that waits under a given number.\<close>

definition quietSystem :: system where
  "quietSystem =
     \<lparr>theClient = freshClient,
      store = \<lparr>credential = Some ''stale-token'', refreshing = False, waiters = [],
               refreshesPerformed = 0\<rparr>,
      suspended = [], nextCaller = 0, rejections = []\<rparr>"

definition callerClock :: "nat \<Rightarrow> clock" where
  "callerClock n = \<lparr>dateNow = 3000 + int n, freshRequestId = ''3000-'' @ replicate (Suc n) CHR ''c'',
                    perfNow = 70 + int n\<rparr>"

definition twoFailedThenRefreshed :: system where
  "twoFailedThenRefreshed =
     happen sampleEnv callerClock (RefreshEnded (Some ''fresh-token''))
       (happen sampleEnv callerClock (RequestFailed (failedWith 401 (getRequest ''/api/config'')))
         (happen sampleEnv callerClock
            (RequestFailed (failedWith 401 (getRequest ''/api/overview''))) quietSystem))"

text \<open>The production logger with its library; the same after \<^verbatim>\<open>setLevel\<close> to \<^verbatim>\<open>warn\<close>
  (level 3).\<close>

definition productionFacade :: facade where
  "productionFacade = constructFacade sampleEnv (sampleBrowser True None)"

definition afterSetLevelWarn :: facade where
  "afterSetLevelWarn = facadeRun [(sampleEnv, SetLevel 3)] productionFacade"

section \<open>Properties of the logger\<close>

subsection \<open>What the local echo leaves alone\<close>

lemma originalMethods_frame [simp]:
  "logQueue (originalMethods lv args st) = logQueue st"
  "isSending (originalMethods lv args st) = isSending st"
  "isOnline (originalMethods lv args st) = isOnline st"
  "pending (originalMethods lv args st) = pending st"
  "posted (originalMethods lv args st) = posted st"
  "localStorage (originalMethods lv args st) = localStorage st"
  "batchTimer (originalMethods lv args st) = batchTimer st"
  "thisSessionId (originalMethods lv args st) = thisSessionId st"
  "boundLevel (originalMethods lv args st) = boundLevel st"
  by (simp_all add: originalMethods_def)

subsection \<open>The flag and the suspended sends\<close>

lemma one_in_flight_frame [simp]:
  "one_in_flight (originalMethods lv args st) = one_in_flight st"
  "one_in_flight (st\<lparr>logQueue := q\<rparr>) = one_in_flight st"
  "one_in_flight (st\<lparr>isOnline := b\<rparr>) = one_in_flight st"
  "one_in_flight (st\<lparr>batchTimer := b\<rparr>) = one_in_flight st"
  "one_in_flight (st\<lparr>localStorage := s\<rparr>) = one_in_flight st"
  by (simp_all add: one_in_flight_def)

lemma one_in_flight_flushLogs: "one_in_flight st \<Longrightarrow> one_in_flight (flushLogs e s st)"
  by (simp add: one_in_flight_def flushLogs_def savePendingLogs_def sendFailed_def Let_def
      split: if_splits)

lemma one_in_flight_sendDone: "one_in_flight st \<Longrightarrow> one_in_flight (sendDone i out st)"
  by (auto simp add: one_in_flight_def sendDone_def savePendingLogs_def sendFailed_def Let_def
      split: if_splits)

lemma one_in_flight_logCall: "one_in_flight st \<Longrightarrow> one_in_flight (logCall e lv args st)"
  by (simp add: logCall_def addToQueue_def Let_def one_in_flight_flushLogs)

lemma one_in_flight_step: "one_in_flight st \<Longrightarrow> one_in_flight (step e ev st)"
  by (cases ev)
     (simp_all add: one_in_flight_flushLogs one_in_flight_sendDone one_in_flight_logCall)

lemma one_in_flight_run: "one_in_flight st \<Longrightarrow> one_in_flight (run evs st)"
  unfolding run_def by (induction evs arbitrary: st) (auto simp: one_in_flight_step)

lemma one_in_flight_construct: "one_in_flight (construct e b)"
  unfolding construct_def Let_def
  by (rule one_in_flight_logCall)
     (simp add: one_in_flight_def loadPendingLogs_def split: option.splits)

text \<open>
  Claim C10. \<^verbatim>\<open>flushLogs\<close> is guarded by the flag \<^verbatim>\<open>isSending\<close>: called while a send is in
  flight or on an empty queue, with either value of \<^verbatim>\<open>synchronous\<close> and online or offline,
  it returns the logger as it found it, so it hands nothing to the network and writes
  nothing to the backlog. In every state a constructed logger reaches, at most one call is
  suspended on its send, one is suspended exactly while the flag is set, and a flush
  called meanwhile (the page-unload flush too) changes nothing.
\<close>

theorem flushLogs_reentrancy_guard:
  "(isSending st \<or> logQueue st = [] \<longrightarrow> flushLogs e synchronous st = st) \<and>
   length (pending (run evs (construct e0 b))) \<le> 1 \<and>
   (isSending (run evs (construct e0 b)) \<longleftrightarrow> pending (run evs (construct e0 b)) \<noteq> []) \<and>
   (pending (run evs (construct e0 b)) \<noteq> [] \<longrightarrow>
      flushLogs e synchronous (run evs (construct e0 b)) = run evs (construct e0 b))"
proof -
  have guard: "isSending s \<or> logQueue s = [] \<Longrightarrow> flushLogs e synchronous s = s" for s
    by (simp add: flushLogs_def)
  have "one_in_flight (run evs (construct e0 b))"
    by (simp add: one_in_flight_run one_in_flight_construct)
  then have "length (pending (run evs (construct e0 b))) \<le> 1"
    and "isSending (run evs (construct e0 b)) \<longleftrightarrow> pending (run evs (construct e0 b)) \<noteq> []"
    by (auto simp: one_in_flight_def split: if_splits)
  with guard show ?thesis by blast
qed

text \<open>A logger that starts online with nineteen stored entries ships twenty at once;
  one more entry is logged while that send is in flight, and the page-unload flush that
  follows leaves everything as it is.\<close>

theorem flushLogs_reentrancy_guard_witness:
  "isSending (run [(sampleEnv, Log INFO [JStr ''x''])]
       (construct sampleEnv (sampleBrowser True (Some (map sampleEntry [1..19]))))) \<and>
   length (logQueue (run [(sampleEnv, Log INFO [JStr ''x''])]
       (construct sampleEnv (sampleBrowser True (Some (map sampleEntry [1..19])))))) = 1 \<and>
   length (pending (run [(sampleEnv, Log INFO [JStr ''x''])]
       (construct sampleEnv (sampleBrowser True (Some (map sampleEntry [1..19])))))) = 1 \<and>
   flushLogs sampleEnv True (run [(sampleEnv, Log INFO [JStr ''x''])]
       (construct sampleEnv (sampleBrowser True (Some (map sampleEntry [1..19]))))) =
     run [(sampleEnv, Log INFO [JStr ''x''])]
       (construct sampleEnv (sampleBrowser True (Some (map sampleEntry [1..19]))))"
proof -
  let ?st = "run [(sampleEnv, Log INFO [JStr ''x''])]
       (construct sampleEnv (sampleBrowser True (Some (map sampleEntry [1..19]))))"
  have sending: "isSending ?st" by code_simp
  have queue: "length (logQueue ?st) = 1" by code_simp
  have one: "length (pending ?st) = 1" by code_simp
  from sending flushLogs_reentrancy_guard [of ?st sampleEnv True "[]" sampleEnv "sampleBrowser True None"]
  have "flushLogs sampleEnv True ?st = ?st" by blast
  with sending queue one show ?thesis by blast
qed

subsection \<open>Helper facts\<close>

lemma mkEntry_originalMethods [simp]:
  "mkEntry e (originalMethods lv' args' st) lv args = mkEntry e st lv args"
  by (simp add: mkEntry_def)

lemma mkPost_frame [simp]:
  "mkPost t e (originalMethods lv args st) q = mkPost t e st q"
  "mkPost t e (st\<lparr>isOnline := b\<rparr>) q = mkPost t e st q"
  "mkPost t e (st\<lparr>logQueue := q'\<rparr>) q = mkPost t e st q"
  "mkPost t e (st\<lparr>isSending := b\<rparr>) q = mkPost t e st q"
  by (simp_all add: mkPost_def)

lemma sliceLast_short: "length xs \<le> n \<Longrightarrow> sliceLast n xs = xs"
  by (simp add: sliceLast_def)

lemma sliceLast_long: "n \<le> length xs \<Longrightarrow> length (sliceLast n xs) = n"
  by (simp add: sliceLast_def)

lemma sliceLast_suffix: "take (length xs - n) xs @ sliceLast n xs = xs"
  by (simp add: sliceLast_def)

lemma entriesOf_session:
  "thisSessionId st' = thisSessionId st \<Longrightarrow> entriesOf st' calls = entriesOf st calls"
  by (simp add: entriesOf_def mkEntry_def)

lemma entriesOf_Cons:
  "entriesOf st ((e, lv, args) # calls) = mkEntry e st lv args # entriesOf st calls"
  by (simp add: entriesOf_def)

lemma run_Cons: "run ((e, ev) # evs) st = run evs (step e ev st)"
  by (simp add: run_def)

lemma logEvents_Cons: "logEvents ((e, lv, args) # calls) = (e, Log lv args) # logEvents calls"
  by (simp add: logEvents_def)

text \<open>While a send is in flight a logging call only appends its entry.\<close>

lemma logCall_while_sending:
  assumes "isSending st"
  shows "logQueue (logCall e lv args st) = logQueue st @ [mkEntry e st lv args]"
    and "isSending (logCall e lv args st)"
    and "pending (logCall e lv args st) = pending st"
    and "posted (logCall e lv args st) = posted st"
    and "isOnline (logCall e lv args st) = isOnline st"
    and "localStorage (logCall e lv args st) = localStorage st"
    and "thisSessionId (logCall e lv args st) = thisSessionId st"
  using assms by (simp_all add: logCall_def addToQueue_def flushLogs_def Let_def)

lemma logs_while_sending:
  "isSending st \<Longrightarrow>
     logQueue (run (logEvents calls) st) = logQueue st @ entriesOf st calls \<and>
     isSending (run (logEvents calls) st) \<and>
     pending (run (logEvents calls) st) = pending st \<and>
     posted (run (logEvents calls) st) = posted st \<and>
     isOnline (run (logEvents calls) st) = isOnline st \<and>
     localStorage (run (logEvents calls) st) = localStorage st \<and>
     thisSessionId (run (logEvents calls) st) = thisSessionId st"
proof (induction calls arbitrary: st)
  case Nil
  then show ?case by (simp add: run_def logEvents_def entriesOf_def)
next
  case (Cons c calls)
  obtain e lv args where c: "c = (e, lv, args)" by (cases c)
  let ?st' = "logCall e lv args st"
  have r: "run (logEvents ((e, lv, args) # calls)) st = run (logEvents calls) ?st'"
    unfolding logEvents_Cons run_Cons by simp
  have s: "isSending ?st'" using Cons.prems by (rule logCall_while_sending)
  have es: "entriesOf ?st' calls = entriesOf st calls"
    by (rule entriesOf_session) (rule logCall_while_sending(7) [OF Cons.prems])
  note ih = Cons.IH [OF s, unfolded es]
  note lc = logCall_while_sending [OF Cons.prems, of e lv args]
  show ?case
    unfolding c r entriesOf_Cons using ih
    by (simp only: lc append_assoc append_Cons append_Nil simp_thms)
qed

subsection \<open>Connectivity\<close>

text \<open>
  Claim C8. The handler of the connectivity-lost event changes the flag \<^verbatim>\<open>isOnline\<close> (and
  prints a warning through the original method) and nothing else: the queue, the backlog,
  the requests handed to the network, the suspended sends and \<^verbatim>\<open>isSending\<close> are as
  before, and a flush that follows hands nothing to the network. The handler of the
  connectivity-restored event sets the flag and flushes at once, with no call from the
  application: when the queue is not empty and no send is in flight, the whole queue is
  handed to the network in that same turn; otherwise the flush finds nothing to do.
\<close>

theorem connectivity_transitions:
  "logQueue (step e Offline st) = logQueue st \<and>
   posted (step e Offline st) = posted st \<and>
   pending (step e Offline st) = pending st \<and>
   localStorage (step e Offline st) = localStorage st \<and>
   isSending (step e Offline st) = isSending st \<and>
   \<not> isOnline (step e Offline st) \<and>
   posted (flushLogs e' s (step e Offline st)) = posted st \<and>
   isOnline (step e Online st) \<and>
   localStorage (step e Online st) = localStorage st \<and>
   (if \<not> isSending st \<and> logQueue st \<noteq> []
    then posted (step e Online st) = posted st @ [mkPost ViaFetch e st (logQueue st)] \<and>
         pending (step e Online st) = pending st @ [logQueue st] \<and>
         logQueue (step e Online st) = [] \<and> isSending (step e Online st)
    else posted (step e Online st) = posted st \<and> pending (step e Online st) = pending st \<and>
         logQueue (step e Online st) = logQueue st \<and>
         isSending (step e Online st) = isSending st)"
  by (simp add: flushLogs_def savePendingLogs_def Let_def)

text \<open>After A, B, C, the loss of the connection and D, the queue holds five entries (the
  constructor's and the four) and nothing was sent; the connectivity-restored event sends
  the five at once.\<close>

theorem connectivity_transitions_witness:
  "\<not> isSending fourThenOffline \<and> length (logQueue fourThenOffline) = 5 \<and>
   posted fourThenOffline = [] \<and>
   posted (step sampleEnv Online fourThenOffline) =
     [mkPost ViaFetch sampleEnv fourThenOffline (logQueue fourThenOffline)] \<and>
   logQueue (step sampleEnv Online fourThenOffline) = [] \<and>
   logQueue (step sampleEnv Offline fourThenOffline) = logQueue fourThenOffline \<and>
   posted (step sampleEnv Offline fourThenOffline) = []"
proof -
  have idle: "\<not> isSending fourThenOffline" by code_simp
  have five: "length (logQueue fourThenOffline) = 5" by code_simp
  have none: "posted fourThenOffline = []" by code_simp
  from five have nonempty: "logQueue fourThenOffline \<noteq> []" by auto
  from connectivity_transitions [of sampleEnv fourThenOffline sampleEnv False] idle nonempty none
  have "posted (step sampleEnv Online fourThenOffline) =
          [mkPost ViaFetch sampleEnv fourThenOffline (logQueue fourThenOffline)]"
    and "logQueue (step sampleEnv Online fourThenOffline) = []"
    and "logQueue (step sampleEnv Offline fourThenOffline) = logQueue fourThenOffline"
    and "posted (step sampleEnv Offline fourThenOffline) = []"
    by simp_all
  with idle five none show ?thesis by blast
qed

subsection \<open>The backlog\<close>

text \<open>
  Claim C6, as amended. While the logger is offline and no send is in flight, every flush
  of a non-empty queue (of either kind) writes to the backlog the last
  \<^verbatim>\<open>MAX_STORED_LOGS\<close> entries of the queue and changes nothing else: the whole queue when
  it holds at most that many entries, and otherwise exactly the \<^verbatim>\<open>MAX_STORED_LOGS\<close> most
  recent ones, in order, the oldest being left out.
\<close>

theorem offline_flush_persists:
  assumes "\<not> isOnline st" and "\<not> isSending st" and "logQueue st \<noteq> []"
  shows "flushLogs e s st = st\<lparr>localStorage := Some (sliceLast MAX_STORED_LOGS (logQueue st))\<rparr> \<and>
         (if length (logQueue st) \<le> MAX_STORED_LOGS
          then sliceLast MAX_STORED_LOGS (logQueue st) = logQueue st
          else length (sliceLast MAX_STORED_LOGS (logQueue st)) = MAX_STORED_LOGS \<and>
               take (length (logQueue st) - MAX_STORED_LOGS) (logQueue st) @
                 sliceLast MAX_STORED_LOGS (logQueue st) = logQueue st)"
  using assms
  by (simp add: flushLogs_def savePendingLogs_def sliceLast_short sliceLast_long sliceLast_suffix)

text \<open>After A, B, C, the loss of the connection and D, the page-unload flush stores the
  five queued entries, the constructor's first and D last.\<close>

theorem offline_flush_persists_witness:
  "\<not> isOnline fourThenOffline \<and> \<not> isSending fourThenOffline \<and>
   map message (logQueue fourThenOffline) =
     [[Plain (JStr ''Client logger initialized''),
       Json (JObj [(''sessionId'', JStr ''s1''), (''logLevel'', JNum 2),
                   (''environment'', JStr ''production''), (''userAgent'', JStr ''agent''),
                   (''screen'', JNull)])],
      [Plain (JStr ''A'')], [Plain (JStr ''B'')], [Plain (JStr ''C'')], [Plain (JStr ''D'')]] \<and>
   localStorage (flushLogs sampleEnv True fourThenOffline) = Some (logQueue fourThenOffline)"
proof -
  have off: "\<not> isOnline fourThenOffline" by code_simp
  have idle: "\<not> isSending fourThenOffline" by code_simp
  have msgs: "map message (logQueue fourThenOffline) =
     [[Plain (JStr ''Client logger initialized''),
       Json (JObj [(''sessionId'', JStr ''s1''), (''logLevel'', JNum 2),
                   (''environment'', JStr ''production''), (''userAgent'', JStr ''agent''),
                   (''screen'', JNull)])],
      [Plain (JStr ''A'')], [Plain (JStr ''B'')], [Plain (JStr ''C'')], [Plain (JStr ''D'')]]"
    by code_simp
  from msgs have nonempty: "logQueue fourThenOffline \<noteq> []" by auto
  have small: "length (logQueue fourThenOffline) \<le> MAX_STORED_LOGS" by code_simp
  from offline_flush_persists [OF off idle nonempty, of sampleEnv True] small
  have "localStorage (flushLogs sampleEnv True fourThenOffline) = Some (logQueue fourThenOffline)"
    by simp
  with off idle msgs show ?thesis by blast
qed

text \<open>The claim as it stands fails while a send is in flight: the logger is offline, an
  entry is queued, and neither kind of flush stores anything.\<close>

theorem offline_flush_counterexample:
  "\<not> isOnline offlineWhileSending \<and> length (logQueue offlineWhileSending) = 1 \<and>
   isSending offlineWhileSending \<and> localStorage offlineWhileSending = None \<and>
   localStorage (flushLogs sampleEnv False offlineWhileSending) = None \<and>
   localStorage (flushLogs sampleEnv True offlineWhileSending) = None"
  by code_simp

subsection \<open>A send that fails\<close>

text \<open>
  Claim C1, as amended. Take a logger that is online, with no send in flight and a
  non-empty queue. A flush hands the queue to the network as one batch. If that send ends
  with a response outside 200..299 or is rejected, then, whatever was logged meanwhile,
  the queue becomes the batch followed by the entries logged meanwhile, in the order of
  their calls; the backlog is written with the last \<^verbatim>\<open>MAX_STORED_LOGS\<close> entries of that
  queue (all of it, the batch included, when it holds no more than that); and the next
  flush hands to the network exactly the batch followed by the entries logged meanwhile.
  On the page-unload path a send primitive that throws likewise leaves the queue as it
  was and writes the backlog; one that returns has shipped the queue.
\<close>

theorem failed_send_requeues:
  assumes "isOnline st" and "\<not> isSending st" and "logQueue st \<noteq> []"
    and "\<not> response_ok outcome"
  shows
   "logQueue (sendDone (length (pending st)) outcome (run (logEvents calls) (flushLogs e False st)))
      = logQueue st @ entriesOf st calls \<and>
    localStorage (sendDone (length (pending st)) outcome (run (logEvents calls) (flushLogs e False st)))
      = Some (sliceLast MAX_STORED_LOGS (logQueue st @ entriesOf st calls)) \<and>
    (if length (logQueue st @ entriesOf st calls) \<le> MAX_STORED_LOGS
     then sliceLast MAX_STORED_LOGS (logQueue st @ entriesOf st calls) = logQueue st @ entriesOf st calls
     else length (sliceLast MAX_STORED_LOGS (logQueue st @ entriesOf st calls)) = MAX_STORED_LOGS) \<and>
    posted (flushLogs e' False
        (sendDone (length (pending st)) outcome (run (logEvents calls) (flushLogs e False st))))
      = posted st @ [mkPost ViaFetch e st (logQueue st),
                     mkPost ViaFetch e' st (logQueue st @ entriesOf st calls)] \<and>
    (if syncSendThrows e
     then logQueue (flushLogs e True st) = logQueue st \<and>
          localStorage (flushLogs e True st) = Some (sliceLast MAX_STORED_LOGS (logQueue st)) \<and>
          posted (flushLogs e True st) = posted st \<and> \<not> isSending (flushLogs e True st)
     else logQueue (flushLogs e True st) = [] \<and>
          posted (flushLogs e True st) = posted st @ [mkPost ViaBeacon e st (logQueue st)] \<and>
          \<not> isSending (flushLogs e True st))"
proof -
  let ?st1 = "flushLogs e False st"
  let ?st2 = "run (logEvents calls) ?st1"
  let ?st3 = "sendDone (length (pending st)) outcome ?st2"
  let ?q = "logQueue st @ entriesOf st calls"
  have f: "logQueue ?st1 = []" "isSending ?st1" "pending ?st1 = pending st @ [logQueue st]"
    "posted ?st1 = posted st @ [mkPost ViaFetch e st (logQueue st)]" "isOnline ?st1"
    "thisSessionId ?st1 = thisSessionId st"
    using assms by (simp_all add: flushLogs_def Let_def)
  have w: "logQueue ?st2 = entriesOf st calls" "isSending ?st2"
    "pending ?st2 = pending st @ [logQueue st]"
    "posted ?st2 = posted st @ [mkPost ViaFetch e st (logQueue st)]" "isOnline ?st2"
    "thisSessionId ?st2 = thisSessionId st"
    using logs_while_sending [OF f(2), of calls] f entriesOf_session [OF f(6), of calls]
    by simp_all
  have d: "logQueue ?st3 = ?q"
    "localStorage ?st3 = Some (sliceLast MAX_STORED_LOGS ?q)"
    "\<not> isSending ?st3" "isOnline ?st3" "thisSessionId ?st3 = thisSessionId st"
    "posted ?st3 = posted st @ [mkPost ViaFetch e st (logQueue st)]"
    using assms w by (simp_all add: sendDone_def sendFailed_def savePendingLogs_def Let_def)
  have n: "posted (flushLogs e' False ?st3) =
      posted st @ [mkPost ViaFetch e st (logQueue st), mkPost ViaFetch e' st ?q]"
    using d assms by (simp add: flushLogs_def Let_def mkPost_def)
  have c: "if length ?q \<le> MAX_STORED_LOGS then sliceLast MAX_STORED_LOGS ?q = ?q
           else length (sliceLast MAX_STORED_LOGS ?q) = MAX_STORED_LOGS"
    by (simp add: sliceLast_short sliceLast_long)
  have s: "if syncSendThrows e
     then logQueue (flushLogs e True st) = logQueue st \<and>
          localStorage (flushLogs e True st) = Some (sliceLast MAX_STORED_LOGS (logQueue st)) \<and>
          posted (flushLogs e True st) = posted st \<and> \<not> isSending (flushLogs e True st)
     else logQueue (flushLogs e True st) = [] \<and>
          posted (flushLogs e True st) = posted st @ [mkPost ViaBeacon e st (logQueue st)] \<and>
          \<not> isSending (flushLogs e True st)"
    using assms by (simp add: flushLogs_def sendFailed_def savePendingLogs_def Let_def)
  from d(1,2) c n s show ?thesis by (intro conjI)
qed

text \<open>The scenario of a shipment that is answered with status 500: three entries are
  sent, C is logged while the send is in flight, the send fails; the queue then holds the
  three followed by C, the backlog holds the same four, and the next flush sends the four
  in that order.\<close>

theorem failed_send_requeues_witness:
  "isOnline threeQueued \<and> \<not> isSending threeQueued \<and> length (logQueue threeQueued) = 3 \<and>
   \<not> response_ok (Responded 500) \<and>
   logQueue (sendDone (length (pending threeQueued)) (Responded 500)
       (run (logEvents [(sampleEnv, INFO, [JStr ''C''])]) (flushLogs sampleEnv False threeQueued)))
     = logQueue threeQueued @ [mkEntry sampleEnv threeQueued INFO [JStr ''C'']] \<and>
   localStorage (sendDone (length (pending threeQueued)) (Responded 500)
       (run (logEvents [(sampleEnv, INFO, [JStr ''C''])]) (flushLogs sampleEnv False threeQueued)))
     = Some (logQueue threeQueued @ [mkEntry sampleEnv threeQueued INFO [JStr ''C'']]) \<and>
   map logs (posted (flushLogs sampleEnv False
       (sendDone (length (pending threeQueued)) (Responded 500)
         (run (logEvents [(sampleEnv, INFO, [JStr ''C''])]) (flushLogs sampleEnv False threeQueued)))))
     = [logQueue threeQueued,
        logQueue threeQueued @ [mkEntry sampleEnv threeQueued INFO [JStr ''C'']]] \<and>
   logQueue (flushLogs throwingEnv True threeQueued) = logQueue threeQueued \<and>
   localStorage (flushLogs throwingEnv True threeQueued) = Some (logQueue threeQueued)"
proof -
  have on: "isOnline threeQueued" by code_simp
  have idle: "\<not> isSending threeQueued" by code_simp
  have three: "length (logQueue threeQueued) = 3" by code_simp
  have none: "posted threeQueued = []" by code_simp
  have bad: "\<not> response_ok (Responded 500)" by simp
  have thr: "syncSendThrows throwingEnv" by code_simp
  from three have nonempty: "logQueue threeQueued \<noteq> []" by auto
  have es: "entriesOf threeQueued [(sampleEnv, INFO, [JStr ''C''])] =
      [mkEntry sampleEnv threeQueued INFO [JStr ''C'']]"
    by (simp add: entriesOf_def)
  have small: "length (logQueue threeQueued @ [mkEntry sampleEnv threeQueued INFO [JStr ''C'']])
      \<le> MAX_STORED_LOGS"
    using three by (simp add: MAX_STORED_LOGS_def)
  have small': "length (logQueue threeQueued) \<le> MAX_STORED_LOGS"
    using three by (simp add: MAX_STORED_LOGS_def)
  note a = failed_send_requeues [OF on idle nonempty bad,
      of "[(sampleEnv, INFO, [JStr ''C''])]" sampleEnv sampleEnv, unfolded es]
  note b = failed_send_requeues [OF on idle nonempty bad, of "[]" throwingEnv sampleEnv]
  from a small none have
    "logQueue (sendDone (length (pending threeQueued)) (Responded 500)
       (run (logEvents [(sampleEnv, INFO, [JStr ''C''])]) (flushLogs sampleEnv False threeQueued)))
     = logQueue threeQueued @ [mkEntry sampleEnv threeQueued INFO [JStr ''C'']]"
    and "localStorage (sendDone (length (pending threeQueued)) (Responded 500)
       (run (logEvents [(sampleEnv, INFO, [JStr ''C''])]) (flushLogs sampleEnv False threeQueued)))
     = Some (logQueue threeQueued @ [mkEntry sampleEnv threeQueued INFO [JStr ''C'']])"
    and "map logs (posted (flushLogs sampleEnv False
       (sendDone (length (pending threeQueued)) (Responded 500)
         (run (logEvents [(sampleEnv, INFO, [JStr ''C''])]) (flushLogs sampleEnv False threeQueued)))))
     = [logQueue threeQueued,
        logQueue threeQueued @ [mkEntry sampleEnv threeQueued INFO [JStr ''C'']]]"
    by (simp_all add: mkPost_def)
  moreover from b thr small' have
    "logQueue (flushLogs throwingEnv True threeQueued) = logQueue threeQueued"
    and "localStorage (flushLogs throwingEnv True threeQueued) = Some (logQueue threeQueued)"
    by (simp_all add: sliceLast_short)
  ultimately show ?thesis using on idle three bad by blast
qed

text \<open>The claim as it stands fails on a batch of more than \<^verbatim>\<open>MAX_STORED_LOGS\<close> entries:
  a batch of a hundred and one is in flight, its send is answered with status 500, the
  whole batch returns to the queue, and the backlog is written without the first entry
  of the batch.\<close>

theorem failed_send_backlog_counterexample:
  "length (pending hundredStored) = 1 \<and>
   length (hd (pending hundredStored)) = 101 \<and>
   hd (hd (pending hundredStored)) = sampleEntry 1 \<and>
   logQueue (step sampleEnv (FetchEnded 0 (Responded 500)) hundredStored) =
     hd (pending hundredStored) \<and>
   localStorage (step sampleEnv (FetchEnded 0 (Responded 500)) hundredStored) =
     Some (tl (hd (pending hundredStored))) \<and>
   sampleEntry 1 \<notin> set (tl (hd (pending hundredStored)))"
proof -
  have "length (pending hundredStored) = 1" by code_simp
  moreover have "length (hd (pending hundredStored)) = 101" by code_simp
  moreover have "hd (hd (pending hundredStored)) = sampleEntry 1" by code_simp
  moreover have "logQueue (step sampleEnv (FetchEnded 0 (Responded 500)) hundredStored) =
     hd (pending hundredStored)" by code_simp
  moreover have "localStorage (step sampleEnv (FetchEnded 0 (Responded 500)) hundredStored) =
     Some (tl (hd (pending hundredStored)))" by code_simp
  moreover have "sampleEntry 1 \<notin> set (tl (hd (pending hundredStored)))" by code_simp
  ultimately show ?thesis by blast
qed

subsection \<open>Logging calls\<close>

text \<open>
  Claim C7, as amended. A logging call that leaves the queue below \<^verbatim>\<open>LOG_BATCH_SIZE\<close>
  only appends its entry. A logging call that brings the queue to \<^verbatim>\<open>LOG_BATCH_SIZE\<close>
  entries or more runs the flush within the call, without waiting for the timer: when the
  logger is online and no send is in flight, the whole queue, the new entry last, is
  handed to the network at once and the queue is emptied; when the logger is offline and
  no send is in flight, the queue is written to the backlog and nothing is sent; when a
  send is in flight, the entry is appended and nothing is sent or stored.
\<close>

theorem size_triggered_flush:
  "(if length (logQueue st) + 1 < LOG_BATCH_SIZE \<or> isSending st
    then posted (logCall e lv args st) = posted st \<and>
         pending (logCall e lv args st) = pending st \<and>
         localStorage (logCall e lv args st) = localStorage st \<and>
         logQueue (logCall e lv args st) = logQueue st @ [mkEntry e st lv args]
    else if isOnline st
    then posted (logCall e lv args st) =
           posted st @ [mkPost ViaFetch e st (logQueue st @ [mkEntry e st lv args])] \<and>
         pending (logCall e lv args st) = pending st @ [logQueue st @ [mkEntry e st lv args]] \<and>
         logQueue (logCall e lv args st) = [] \<and> isSending (logCall e lv args st)
    else posted (logCall e lv args st) = posted st \<and>
         pending (logCall e lv args st) = pending st \<and>
         localStorage (logCall e lv args st) =
           Some (sliceLast MAX_STORED_LOGS (logQueue st @ [mkEntry e st lv args])) \<and>
         logQueue (logCall e lv args st) = logQueue st @ [mkEntry e st lv args])"
  by (simp add: logCall_def addToQueue_def flushLogs_def savePendingLogs_def Let_def)

text \<open>Twenty entries, no timer tick: the constructor's entry and eighteen more are
  queued and nothing has been sent; the twentieth entry sends all twenty at once.\<close>

theorem size_triggered_flush_witness:
  "length (logQueue nineteenQueued) = 19 \<and> posted nineteenQueued = [] \<and>
   isOnline nineteenQueued \<and> \<not> isSending nineteenQueued \<and>
   map logs (posted (logCall sampleEnv INFO [JStr ''x''] nineteenQueued)) =
     [logQueue nineteenQueued @ [mkEntry sampleEnv nineteenQueued INFO [JStr ''x'']]] \<and>
   logQueue (logCall sampleEnv INFO [JStr ''x''] nineteenQueued) = []"
proof -
  have n: "length (logQueue nineteenQueued) = 19" by code_simp
  have p: "posted nineteenQueued = []" by code_simp
  have on: "isOnline nineteenQueued" by code_simp
  have idle: "\<not> isSending nineteenQueued" by code_simp
  from size_triggered_flush [of nineteenQueued sampleEnv INFO "[JStr ''x'']"] n p on idle
  have "map logs (posted (logCall sampleEnv INFO [JStr ''x''] nineteenQueued)) =
     [logQueue nineteenQueued @ [mkEntry sampleEnv nineteenQueued INFO [JStr ''x'']]]"
    and "logQueue (logCall sampleEnv INFO [JStr ''x''] nineteenQueued) = []"
    by (simp_all add: LOG_BATCH_SIZE_def mkPost_def)
  with n p on idle show ?thesis by blast
qed

text \<open>The claim as it stands fails while a send is in flight: twenty entries were sent
  by the constructor and that send has not ended; the twentieth entry logged since then
  brings the queue to twenty, and nothing is handed to the network or stored.\<close>

theorem size_triggered_flush_counterexample:
  "length (logQueue nineteenWhileSending) = 19 \<and>
   length (posted nineteenWhileSending) = 1 \<and>
   isOnline nineteenWhileSending \<and>
   length (logQueue (logCall sampleEnv INFO [JStr ''x''] nineteenWhileSending)) = LOG_BATCH_SIZE \<and>
   posted (logCall sampleEnv INFO [JStr ''x''] nineteenWhileSending) = posted nineteenWhileSending \<and>
   localStorage (logCall sampleEnv INFO [JStr ''x''] nineteenWhileSending) = None"
proof -
  have "length (logQueue nineteenWhileSending) = 19" by code_simp
  moreover have "length (posted nineteenWhileSending) = 1" by code_simp
  moreover have "isOnline nineteenWhileSending" by code_simp
  moreover have "length (logQueue (logCall sampleEnv INFO [JStr ''x''] nineteenWhileSending)) =
      LOG_BATCH_SIZE" by code_simp
  moreover have "posted (logCall sampleEnv INFO [JStr ''x''] nineteenWhileSending) =
      posted nineteenWhileSending" by code_simp
  moreover have "localStorage (logCall sampleEnv INFO [JStr ''x''] nineteenWhileSending) = None"
    by code_simp
  ultimately show ?thesis by blast
qed

subsection \<open>The level and the queue\<close>

lemma boundLevel_flushLogs [simp]: "boundLevel (flushLogs e s st) = boundLevel st"
  by (simp add: flushLogs_def savePendingLogs_def sendFailed_def Let_def)

lemma boundLevel_sendDone [simp]: "boundLevel (sendDone i outcome st) = boundLevel st"
  by (simp add: sendDone_def savePendingLogs_def sendFailed_def Let_def)

lemma boundLevel_logCall [simp]: "boundLevel (logCall e lv args st) = boundLevel st"
  by (simp add: logCall_def addToQueue_def Let_def)

lemma boundLevel_step [simp]: "boundLevel (step e ev st) = boundLevel st"
  by (cases ev) simp_all

lemma boundLevel_construct: "boundLevel (construct e b) = (if isDev b then DEBUG else INFO)"
  by (simp add: construct_def Let_def loadPendingLogs_def split: option.splits)

lemma publicLog_library [simp]:
  "interceptorsInstalled (publicLog e lv args f) = interceptorsInstalled f"
  "libraryLevel (publicLog e lv args f) = libraryLevel f"
  "boundLevel (core (publicLog e lv args f)) = boundLevel (core f)"
  by (simp_all add: publicLog_def libraryMethod_def)

text \<open>While the interceptors are in place, the logger with its library moves as the
  logger of the earlier sections does.\<close>

lemma facadeStep_while_installed:
  "interceptorsInstalled f \<Longrightarrow> facadeStep e (Browser ev) f = f\<lparr>core := step e ev (core f)\<rparr>"
  by (cases ev) (simp_all add: publicLog_def)

lemma facadeStep_library:
  "interceptorsInstalled (facadeStep e ev f) =
     (interceptorsInstalled f \<and> \<not> (case ev of SetLevel n \<Rightarrow> n \<le> 5 | Browser b \<Rightarrow> False))"
  "libraryLevel (facadeStep e ev f) =
     (case ev of SetLevel n \<Rightarrow> if n \<le> 5 then n else libraryLevel f | Browser b \<Rightarrow> libraryLevel f)"
  "boundLevel (core (facadeStep e ev f)) = boundLevel (core f)"
proof -
  show "interceptorsInstalled (facadeStep e ev f) =
     (interceptorsInstalled f \<and> \<not> (case ev of SetLevel n \<Rightarrow> n \<le> 5 | Browser b \<Rightarrow> False))"
  proof (cases ev)
    case (SetLevel n)
    then show ?thesis by (simp add: setLevel_def)
  next
    case (Browser b)
    then show ?thesis by (cases b) simp_all
  qed
  show "libraryLevel (facadeStep e ev f) =
     (case ev of SetLevel n \<Rightarrow> if n \<le> 5 then n else libraryLevel f | Browser b \<Rightarrow> libraryLevel f)"
  proof (cases ev)
    case (SetLevel n)
    then show ?thesis by (simp add: setLevel_def)
  next
    case (Browser b)
    then show ?thesis by (cases b) simp_all
  qed
  show "boundLevel (core (facadeStep e ev f)) = boundLevel (core f)"
  proof (cases ev)
    case (SetLevel n)
    then show ?thesis by (simp add: setLevel_def)
  next
    case (Browser b)
    then show ?thesis by (cases b) simp_all
  qed
qed

lemma facadeRun_library:
  "interceptorsInstalled (facadeRun evs f) = (interceptorsInstalled f \<and> \<not> levelWasSet evs) \<and>
   libraryLevel (facadeRun evs f) = levelAfter (libraryLevel f) evs \<and>
   boundLevel (core (facadeRun evs f)) = boundLevel (core f)"
proof (induction evs arbitrary: f)
  case Nil
  show ?case by (simp add: facadeRun_def levelWasSet_def levelAfter_def)
next
  case (Cons x evs)
  obtain e ev where x: "x = (e, ev)" by (cases x)
  have r: "facadeRun (x # evs) f = facadeRun evs (facadeStep e ev f)"
    by (simp add: facadeRun_def x)
  have w: "levelWasSet (x # evs) =
      ((case ev of SetLevel n \<Rightarrow> n \<le> 5 | Browser b \<Rightarrow> False) \<or> levelWasSet evs)"
    by (simp add: levelWasSet_def x)
  have a: "levelAfter (libraryLevel f) (x # evs) = levelAfter (libraryLevel (facadeStep e ev f)) evs"
    by (simp add: levelAfter_def x facadeStep_library(2))
  show ?case
    unfolding r w a using Cons.IH [of "facadeStep e ev f"]
    by (auto simp: facadeStep_library)
qed

text \<open>
  Claim C4, as amended. The minimum severity never keeps an entry out of the queue while
  the interceptors the constructor installed are in place, that is, until \<^verbatim>\<open>setLevel\<close> is
  first called with a level the library accepts: every logging call then adds one entry of
  its level to what the logger holds for shipment (as the last entry of the queue, or of
  the batch the same call hands to the network), whatever its level, and only its local
  echo is dropped when its level is below the level the constructor set. Once
  \<^verbatim>\<open>setLevel\<close> has been called, \<^verbatim>\<open>getLevel\<close> reads the level last set, and a logging call
  whose level is below it reaches neither the local echo nor the queue.
\<close>

theorem level_gates_echo_only:
  "interceptorsInstalled (facadeRun evs (constructFacade e0 b)) = (\<not> levelWasSet evs) \<and>
   getLevel (facadeRun evs (constructFacade e0 b)) =
     levelAfter (severity (if isDev b then DEBUG else INFO)) evs \<and>
   boundLevel (core (facadeRun evs (constructFacade e0 b))) = (if isDev b then DEBUG else INFO) \<and>
   (interceptorsInstalled f \<longrightarrow>
      buffered (core (publicLog e lv args f)) = buffered (core f) @ [mkEntry e (core f) lv args] \<and>
      level (mkEntry e (core f) lv args) = lv \<and>
      console (core (publicLog e lv args f)) =
        (if severity (boundLevel (core f)) \<le> severity lv
         then console (core f) @ [Echo lv args] else console (core f))) \<and>
   (\<not> interceptorsInstalled f \<and> severity lv < getLevel f \<longrightarrow> publicLog e lv args f = f)"
proof -
  have run: "interceptorsInstalled (facadeRun evs (constructFacade e0 b)) = (\<not> levelWasSet evs)"
    "getLevel (facadeRun evs (constructFacade e0 b)) =
       levelAfter (severity (if isDev b then DEBUG else INFO)) evs"
    "boundLevel (core (facadeRun evs (constructFacade e0 b))) = (if isDev b then DEBUG else INFO)"
    using facadeRun_library [of evs "constructFacade e0 b"]
    by (simp_all add: getLevel_def constructFacade_def boundLevel_construct)
  have installed: "interceptorsInstalled f \<longrightarrow>
      buffered (core (publicLog e lv args f)) = buffered (core f) @ [mkEntry e (core f) lv args] \<and>
      level (mkEntry e (core f) lv args) = lv \<and>
      console (core (publicLog e lv args f)) =
        (if severity (boundLevel (core f)) \<le> severity lv
         then console (core f) @ [Echo lv args] else console (core f))"
    by (simp add: publicLog_def buffered_def logCall_def addToQueue_def flushLogs_def
        savePendingLogs_def Let_def mkEntry_def originalMethods_def)
  have replaced: "\<not> interceptorsInstalled f \<and> severity lv < getLevel f \<longrightarrow>
      publicLog e lv args f = f"
    by (simp add: publicLog_def libraryMethod_def getLevel_def)
  from run installed replaced show ?thesis by (intro conjI)
qed

text \<open>On the production logger a call at level \<^verbatim>\<open>debug\<close>, below the level \<^verbatim>\<open>info\<close> in
  force, prints nothing and is queued behind the constructor's entry. After
  \<^verbatim>\<open>setLevel\<close> to \<^verbatim>\<open>warn\<close>, a call at level \<^verbatim>\<open>info\<close> changes nothing.\<close>

theorem level_gates_echo_only_witness:
  "interceptorsInstalled productionFacade \<and> getLevel productionFacade = 2 \<and>
   map level (buffered (core (publicLog sampleEnv DEBUG [JStr ''x''] productionFacade))) =
     [INFO, DEBUG] \<and>
   console (core (publicLog sampleEnv DEBUG [JStr ''x''] productionFacade)) =
     console (core productionFacade) \<and>
   \<not> interceptorsInstalled afterSetLevelWarn \<and> getLevel afterSetLevelWarn = 3 \<and>
   severity INFO < getLevel afterSetLevelWarn \<and>
   publicLog sampleEnv INFO [JStr ''y''] afterSetLevelWarn = afterSetLevelWarn"
proof -
  have none: "\<not> levelWasSet []" by (simp add: levelWasSet_def)
  have some: "levelWasSet [(sampleEnv, SetLevel 3)]" by (simp add: levelWasSet_def)
  have prod: "facadeRun [] (constructFacade sampleEnv (sampleBrowser True None)) = productionFacade"
    by (simp add: facadeRun_def productionFacade_def)
  have dev: "\<not> isDev (sampleBrowser True None)" by (simp add: sampleBrowser_def)
  note a = level_gates_echo_only [of "[]" sampleEnv "sampleBrowser True None"
      productionFacade sampleEnv DEBUG "[JStr ''x'']", unfolded prod]
  note b = level_gates_echo_only [of "[(sampleEnv, SetLevel 3)]" sampleEnv "sampleBrowser True None"
      afterSetLevelWarn sampleEnv INFO "[JStr ''y'']",
      folded productionFacade_def, folded afterSetLevelWarn_def]
  have h: "map level (buffered (core productionFacade)) = [INFO]" by code_simp
  from a none dev have i: "interceptorsInstalled productionFacade"
    and g: "getLevel productionFacade = 2"
    and bl: "boundLevel (core productionFacade) = INFO"
    by (simp_all add: levelAfter_def)
  from a i h bl have q: "map level (buffered (core (publicLog sampleEnv DEBUG [JStr ''x'']
      productionFacade))) = [INFO, DEBUG]"
    and c: "console (core (publicLog sampleEnv DEBUG [JStr ''x''] productionFacade)) =
      console (core productionFacade)"
    by simp_all
  from b some dev have n: "\<not> interceptorsInstalled afterSetLevelWarn"
    and g3: "getLevel afterSetLevelWarn = 3"
    by (simp_all add: levelAfter_def)
  from g3 have lt: "severity INFO < getLevel afterSetLevelWarn" by simp
  from b n lt have u: "publicLog sampleEnv INFO [JStr ''y''] afterSetLevelWarn = afterSetLevelWarn"
    by blast
  from i g q c n g3 lt u show ?thesis by (intro conjI)
qed

text \<open>The claim as it stands fails on the production logger: the level in force is
  \<^verbatim>\<open>info\<close>, a call at level \<^verbatim>\<open>debug\<close> is below it, and its entry is appended to the
  queue.\<close>

theorem below_threshold_counterexample:
  "boundLevel production = INFO \<and>
   severity DEBUG < severity (boundLevel production) \<and>
   map level (logQueue production) = [INFO] \<and>
   map level (logQueue (logCall sampleEnv DEBUG [JStr ''x''] production)) = [INFO, DEBUG]"
  by code_simp

section \<open>Properties of the API client\<close>

subsection \<open>Helper facts\<close>

lemma buffered_logCall:
  "buffered (logCall e lv args st) = buffered st @ [mkEntry e st lv args]"
  by (simp add: buffered_def logCall_def addToQueue_def flushLogs_def savePendingLogs_def Let_def)

lemma logger_log_frame [simp]:
  "requestTimings (logger_log lv e args c) = requestTimings c"
  "toasts (logger_log lv e args c) = toasts c"
  "dispatched (logger_log lv e args c) = dispatched c"
  "refreshCalls (logger_log lv e args c) = refreshCalls c"
  "loggedOut (logger_log lv e args c) = loggedOut c"
  "location (logger_log lv e args c) = location c"
  "clientLogger (logger_log lv e args c) = logCall e lv args (clientLogger c)"
  by (simp_all add: logger_log_def)

lemma takeTiming_frame [simp]:
  "clientLogger (snd (takeTiming k rid c)) = clientLogger c"
  "toasts (snd (takeTiming k rid c)) = toasts c"
  "dispatched (snd (takeTiming k rid c)) = dispatched c"
  "refreshCalls (snd (takeTiming k rid c)) = refreshCalls c"
  "loggedOut (snd (takeTiming k rid c)) = loggedOut c"
  "location (snd (takeTiming k rid c)) = location c"
  by (simp_all add: takeTiming_def split: option.splits)

lemma requestLine_frame [simp]:
  "requestLine label (Some (cfg\<lparr>requestId := r\<rparr>)) = requestLine label (Some cfg)"
  "requestLine label (Some (cfg\<lparr>retry := b\<rparr>)) = requestLine label (Some cfg)"
  "requestLine label (Some (cfg\<lparr>reqHeaders := h\<rparr>)) = requestLine label (Some cfg)"
  by (simp_all add: requestLine_def)

subsection \<open>What the request interceptor logs\<close>

text \<open>
  Claim C5, as amended. For every outbound API request, the entry the request
  interceptor logs at dispatch is of level \<^verbatim>\<open>DEBUG\<close> and records the headers of the request
  as they are, without redaction: its metadata holds the header object under
  \<^verbatim>\<open>headers\<close>, its message holds the same object rendered as JSON, and the value logged
  for the \<^verbatim>\<open>Authorization\<close> header is the value the request carries.
\<close>

theorem request_log_records_headers:
  "buffered (clientLogger (snd (requestInterceptor e k config c))) =
     buffered (clientLogger c) @
       [mkEntry e (clientLogger c) DEBUG
          [JStr (requestLine ''API Request: '' (Some config)),
           JObj [(''method'', optStr (reqMethod config)), (''url'', optStr (reqUrl config)),
                 (''params'', optObj (reqParams config)), (''data'', reqData config),
                 (''headers'', JObj (reqHeaders config)),
                 (''requestId'', JStr (freshRequestId k))]]] \<and>
   level (last (buffered (clientLogger (snd (requestInterceptor e k config c))))) = DEBUG \<and>
   message (last (buffered (clientLogger (snd (requestInterceptor e k config c))))) =
     [Plain (JStr (requestLine ''API Request: '' (Some config))),
      Json (JObj [(''method'', optStr (reqMethod config)), (''url'', optStr (reqUrl config)),
                  (''params'', optObj (reqParams config)), (''data'', reqData config),
                  (''headers'', JObj (reqHeaders config)),
                  (''requestId'', JStr (freshRequestId k))])] \<and>
   getProp (JObj (metadata (last (buffered (clientLogger (snd (requestInterceptor e k config c)))))))
       ''headers'' = JObj (reqHeaders config) \<and>
   getProp (getProp (JObj (metadata (last (buffered (clientLogger
       (snd (requestInterceptor e k config c))))))) ''headers'') ''Authorization'' =
     getProp (JObj (reqHeaders config)) ''Authorization''"
proof -
  let ?args = "[JStr (requestLine ''API Request: '' (Some config)),
           JObj [(''method'', optStr (reqMethod config)), (''url'', optStr (reqUrl config)),
                 (''params'', optObj (reqParams config)), (''data'', reqData config),
                 (''headers'', JObj (reqHeaders config)),
                 (''requestId'', JStr (freshRequestId k))]]"
  have b: "buffered (clientLogger (snd (requestInterceptor e k config c))) =
     buffered (clientLogger c) @ [mkEntry e (clientLogger c) DEBUG ?args]"
    by (simp add: requestInterceptor_def Let_def buffered_logCall)
  have m: "metadata (mkEntry e (clientLogger c) DEBUG ?args) =
      [(''method'', optStr (reqMethod config)), (''url'', optStr (reqUrl config)),
       (''params'', optObj (reqParams config)), (''data'', reqData config),
       (''headers'', JObj (reqHeaders config)), (''requestId'', JStr (freshRequestId k))]"
    by (simp add: mkEntry_def extractMetadata_def)
  have f: "message (mkEntry e (clientLogger c) DEBUG ?args) =
      [Plain (JStr (requestLine ''API Request: '' (Some config))), Json (?args ! 1)]"
    by (simp add: mkEntry_def formatMessage_def)
  have l: "level (mkEntry e (clientLogger c) DEBUG ?args) = DEBUG"
    by (simp add: mkEntry_def)
  show ?thesis
    unfolding b by (simp add: m f l)
qed

text \<open>A request that carries \<^verbatim>\<open>Authorization: Bearer token-one\<close>: the logged entry holds
  that value.\<close>

theorem request_log_records_headers_witness:
  "getProp (getProp (JObj (metadata (last (buffered (clientLogger
       (snd (requestInterceptor sampleEnv (sampleClock False)
              (withAuthorization ''token-one'' (getRequest ''/api/overview'')) freshClient)))))))
       ''headers'') ''Authorization'' = JStr ''Bearer token-one''"
proof -
  have "getProp (JObj (reqHeaders (withAuthorization ''token-one'' (getRequest ''/api/overview''))))
      ''Authorization'' = JStr ''Bearer token-one''"
    by code_simp
  then show ?thesis
    by (simp only: conjunct2 [OF conjunct2 [OF conjunct2 [OF conjunct2
      [OF request_log_records_headers [of sampleEnv "sampleClock False"
        "withAuthorization ''token-one'' (getRequest ''/api/overview'')" freshClient]]]]])
qed

text \<open>The claim as it stands fails: two runs that differ only in the value of the
  \<^verbatim>\<open>Authorization\<close> header leave different queues, and the queued entry holds the
  credential.\<close>

theorem request_log_redaction_counterexample:
  "logQueue (clientLogger (snd (requestInterceptor sampleEnv (sampleClock False)
       (withAuthorization ''token-one'' (getRequest ''/api/overview'')) freshClient))) \<noteq>
   logQueue (clientLogger (snd (requestInterceptor sampleEnv (sampleClock False)
       (withAuthorization ''token-two'' (getRequest ''/api/overview'')) freshClient))) \<and>
   map_of (metadata (last (logQueue (clientLogger (snd (requestInterceptor sampleEnv
       (sampleClock False) (withAuthorization ''token-one'' (getRequest ''/api/overview''))
       freshClient)))))) ''headers'' =
     Some (JObj [(''Content-Type'', JStr ''application/json''),
                 (''Authorization'', JStr ''Bearer token-one'')])"
proof -
  have "logQueue (clientLogger (snd (requestInterceptor sampleEnv (sampleClock False)
       (withAuthorization ''token-one'' (getRequest ''/api/overview'')) freshClient))) \<noteq>
   logQueue (clientLogger (snd (requestInterceptor sampleEnv (sampleClock False)
       (withAuthorization ''token-two'' (getRequest ''/api/overview'')) freshClient)))"
    by code_simp
  moreover have "map_of (metadata (last (logQueue (clientLogger (snd (requestInterceptor sampleEnv
       (sampleClock False) (withAuthorization ''token-one'' (getRequest ''/api/overview''))
       freshClient)))))) ''headers'' =
     Some (JObj [(''Content-Type'', JStr ''application/json''),
                 (''Authorization'', JStr ''Bearer token-one'')])"
    by code_simp
  ultimately show ?thesis by blast
qed

subsection \<open>Errors of the server class\<close>

lemma classify_server_error:
  assumes "errResponse error = Some r" and "500 \<le> status r" and "errConfig error = Some cfg"
  shows "classify e error details c =
     (RejectedWith error,
      (logger_log ERROR e [JStr (requestLine ''API Server Error: '' (Some cfg)), JObj details] c)
      \<lparr>toasts :=
         (if (case reqUrl cfg of None \<Rightarrow> False | Some u \<Rightarrow> includes_str u ''/auth/status'')
          then toasts c
          else toasts c @ [jsOr (getProp (respData r) ''detail'')
                 (jsOr (getProp (respData r) ''message'') (JStr ''An error occurred''))])\<rparr>)"
  using assms by (simp add: classify_def Let_def)

text \<open>
  Claim C9, as amended. For every failed API response that carries an HTTP status of 500
  or greater, the rejection handler records one entry of level \<^verbatim>\<open>ERROR\<close> and rejects
  with the error. It shows one notification, whose text is the \<^verbatim>\<open>detail\<close> of the response
  body, else its \<^verbatim>\<open>message\<close>, else the fixed text, unless the address of the request
  contains \<^verbatim>\<open>/auth/status\<close>: for such a request no notification is shown, whatever the
  status.
\<close>

theorem server_error_handling:
  assumes "errResponse error = Some r" and "500 \<le> status r" and "errConfig error = Some cfg"
  shows "fst (responseRejected e k error c) = Settled (RejectedWith error) \<and>
    buffered (clientLogger (snd (responseRejected e k error c))) =
      buffered (clientLogger c) @
        [mkEntry e (clientLogger c) ERROR
           [JStr (requestLine ''API Server Error: '' (Some cfg)),
            JObj (mkErrorDetails error (fst (takeTiming k (requestId cfg) c)))]] \<and>
    toasts (snd (responseRejected e k error c)) =
      (if (case reqUrl cfg of None \<Rightarrow> False | Some u \<Rightarrow> includes_str u ''/auth/status'')
       then toasts c
       else toasts c @ [jsOr (getProp (respData r) ''detail'')
              (jsOr (getProp (respData r) ''message'') (JStr ''An error occurred''))]) \<and>
    dispatched (snd (responseRejected e k error c)) = dispatched c \<and>
    refreshCalls (snd (responseRejected e k error c)) = refreshCalls c"
proof -
  obtain duration c1 where t: "takeTiming k (requestId cfg) c = (duration, c1)"
    by (cases "takeTiming k (requestId cfg) c")
  have c1: "clientLogger c1 = clientLogger c" "toasts c1 = toasts c"
    "dispatched c1 = dispatched c" "refreshCalls c1 = refreshCalls c"
    using takeTiming_frame [of k "requestId cfg" c] by (simp_all add: t)
  have r: "responseRejected e k error c =
      (case classify e error (mkErrorDetails error duration) c1 of (s, c2) \<Rightarrow> (Settled s, c2))"
    using assms by (auto simp add: responseRejected_def t Let_def)
  show ?thesis
    unfolding r classify_server_error [OF assms]
    by (simp add: t c1 buffered_logCall)
qed

text \<open>A response of status 503 to a request for the overview: one \<^verbatim>\<open>ERROR\<close> entry, and
  the notification carries the detail the backend sent.\<close>

theorem server_error_handling_witness:
  "fst (responseRejected sampleEnv (sampleClock False)
          (failedWith 503 (getRequest ''/api/overview'')) freshClient) =
     Settled (RejectedWith (failedWith 503 (getRequest ''/api/overview''))) \<and>
   map level (buffered (clientLogger (snd (responseRejected sampleEnv (sampleClock False)
          (failedWith 503 (getRequest ''/api/overview'')) freshClient)))) = [INFO, ERROR] \<and>
   toasts (snd (responseRejected sampleEnv (sampleClock False)
          (failedWith 503 (getRequest ''/api/overview'')) freshClient)) =
     [JStr ''backend says no'']"
proof -
  let ?error = "failedWith 503 (getRequest ''/api/overview'')"
  let ?r = "\<lparr>status = 503, statusText = ''failed'',
             respData = JObj [(''detail'', JStr ''backend says no'')], respDataText = ''{}''\<rparr>"
  have a: "errResponse ?error = Some ?r" by (simp add: failedWith_def)
  have b: "500 \<le> status ?r" by simp
  have c: "errConfig ?error = Some (getRequest ''/api/overview'')" by (simp add: failedWith_def)
  have u: "\<not> (case reqUrl (getRequest ''/api/overview'') of None \<Rightarrow> False
              | Some u \<Rightarrow> includes_str u ''/auth/status'')"
    by code_simp
  have h: "map level (buffered (clientLogger freshClient)) = [INFO]" by code_simp
  have t: "toasts freshClient = []" by code_simp
  note inst = server_error_handling [OF a b c, of sampleEnv "sampleClock False" freshClient]
  from inst have "fst (responseRejected sampleEnv (sampleClock False) ?error freshClient) =
      Settled (RejectedWith ?error)" by blast
  moreover from inst h have "map level (buffered (clientLogger (snd (responseRejected sampleEnv
      (sampleClock False) ?error freshClient)))) = [INFO, ERROR]"
    by (simp add: mkEntry_def)
  moreover from inst u t have "toasts (snd (responseRejected sampleEnv (sampleClock False)
      ?error freshClient)) = [JStr ''backend says no'']"
    by (simp add: jsOr_def)
  ultimately show ?thesis by blast
qed

text \<open>The claim as it stands fails on the status probe: its request is answered with
  status 500, an \<^verbatim>\<open>ERROR\<close> entry is recorded, and no notification is shown.\<close>

theorem server_error_probe_counterexample:
  "map_option status (errResponse (failedWith 500 (getRequest ''/api/auth/status''))) = Some 500 \<and>
   map level (buffered (clientLogger (snd (responseRejected sampleEnv (sampleClock False)
          (failedWith 500 (getRequest ''/api/auth/status'')) freshClient)))) = [INFO, ERROR] \<and>
   toasts (snd (responseRejected sampleEnv (sampleClock False)
          (failedWith 500 (getRequest ''/api/auth/status'')) freshClient)) = []"
proof -
  have "map_option status (errResponse (failedWith 500 (getRequest ''/api/auth/status''))) =
      Some 500" by code_simp
  moreover have "map level (buffered (clientLogger (snd (responseRejected sampleEnv
      (sampleClock False) (failedWith 500 (getRequest ''/api/auth/status'')) freshClient)))) =
      [INFO, ERROR]" by code_simp
  moreover have "toasts (snd (responseRejected sampleEnv (sampleClock False)
      (failedWith 500 (getRequest ''/api/auth/status'')) freshClient)) = []" by code_simp
  ultimately show ?thesis by blast
qed

subsection \<open>One retry at most\<close>

lemma classify_frame [simp]:
  "dispatched (snd (classify e error details c)) = dispatched c"
  "refreshCalls (snd (classify e error details c)) = refreshCalls c"
  by (simp_all add: classify_def Let_def split: option.splits)

lemma classify_rejects:
  "errConfig error = Some cfg \<Longrightarrow> fst (classify e error details c) = RejectedWith error"
  by (simp add: classify_def Let_def split: option.splits)

lemma responseFulfilled_frame [simp]:
  "dispatched (responseFulfilled e k config r c) = dispatched c"
  "refreshCalls (responseFulfilled e k config r c) = refreshCalls c"
  by (simp_all add: responseFulfilled_def Let_def split: prod.splits)
     (metis takeTiming_frame(3) snd_conv, metis takeTiming_frame(4) snd_conv)

lemma api_sends:
  "api e k config c = (sent, c1) \<Longrightarrow>
     dispatched c1 = dispatched c @ [sent] \<and> refreshCalls c1 = refreshCalls c \<and>
     retry sent = retry config \<and> reqHeaders sent = reqHeaders config \<and>
     reqUrl sent = reqUrl config \<and> reqMethod sent = reqMethod config \<and>
     reqData sent = reqData config"
  by (auto simp: api_def requestInterceptor_def Let_def split: if_splits)

text \<open>A rejection of a request that is already marked never reaches the 401 block.\<close>

lemma responseRejected_retried:
  assumes "errConfig error = Some cfg" and "retry cfg"
  shows "\<exists>s c'. responseRejected e k error c = (Settled s, c') \<and>
           dispatched c' = dispatched c \<and> refreshCalls c' = refreshCalls c \<and>
           (errResponse error \<noteq> None \<longrightarrow> s = RejectedWith error)"
proof -
  obtain duration c1 where t: "takeTiming k (requestId cfg) c = (duration, c1)"
    by (cases "takeTiming k (requestId cfg) c")
  have c1: "dispatched c1 = dispatched c" "refreshCalls c1 = refreshCalls c"
    using takeTiming_frame [of k "requestId cfg" c] by (simp_all add: t)
  obtain s c2 where cl: "classify e error (mkErrorDetails error duration) c1 = (s, c2)"
    by (cases "classify e error (mkErrorDetails error duration) c1")
  have r: "responseRejected e k error c = (Settled s, c2)"
    using assms by (simp add: responseRejected_def t cl Let_def)
  have "dispatched c2 = dispatched c" "refreshCalls c2 = refreshCalls c"
    using classify_frame [of e error "mkErrorDetails error duration" c1] by (simp_all add: cl c1)
  moreover have "s = RejectedWith error"
    using classify_rejects [OF assms(1), of e "mkErrorDetails error duration" c1] by (simp add: cl)
  ultimately show ?thesis using r by blast
qed

text \<open>A rejection with status 401 of a request not yet marked suspends the handler at the
  refresh, with the request marked and one more call of the refresh counted.\<close>

lemma responseRejected_first_401:
  assumes "errConfig error = Some cfg" and "\<not> retry cfg"
    and "errResponse error = Some r" and "status r = 401"
  shows "\<exists>details c'. responseRejected e k error c =
           (AwaitingRefresh (error\<lparr>errConfig := Some (cfg\<lparr>retry := True\<rparr>)\<rparr>) details
              (cfg\<lparr>retry := True\<rparr>), c') \<and>
           dispatched c' = dispatched c \<and> refreshCalls c' = refreshCalls c + 1"
proof -
  obtain duration c1 where t: "takeTiming k (requestId cfg) c = (duration, c1)"
    by (cases "takeTiming k (requestId cfg) c")
  have c1: "dispatched c1 = dispatched c" "refreshCalls c1 = refreshCalls c"
    using takeTiming_frame [of k "requestId cfg" c] by (simp_all add: t)
  show ?thesis
    using assms by (simp add: responseRejected_def t Let_def c1)
qed

lemma responseRejected_counts:
  "responseRejected e k error c = (st, c') \<Longrightarrow>
     dispatched c' = dispatched c \<and>
     (case st of Settled s \<Rightarrow> refreshCalls c' = refreshCalls c
      | AwaitingRefresh error' details marked \<Rightarrow> refreshCalls c' = refreshCalls c + 1)"
proof -
  assume a: "responseRejected e k error c = (st, c')"
  obtain duration c1 where t:
    "takeTiming k (Option.bind (errConfig error) requestId) c = (duration, c1)"
    by (cases "takeTiming k (Option.bind (errConfig error) requestId) c")
  have c1: "dispatched c1 = dispatched c" "refreshCalls c1 = refreshCalls c"
    using takeTiming_frame [of k "Option.bind (errConfig error) requestId" c]
    by (simp_all add: t)
  obtain s c2 where cl: "classify e error (mkErrorDetails error duration) c1 = (s, c2)"
    by (cases "classify e error (mkErrorDetails error duration) c1")
  have c2: "dispatched c2 = dispatched c" "refreshCalls c2 = refreshCalls c"
    using classify_frame [of e error "mkErrorDetails error duration" c1] by (simp_all add: cl c1)
  show ?thesis
    using a c1 c2
    by (auto simp: responseRejected_def t cl Let_def split: option.splits if_splits)
qed

lemma refreshResolved_counts:
  "refreshResolved e k success token error details marked c = (rs, c') \<Longrightarrow>
     refreshCalls c' = refreshCalls c \<and>
     (case rs of
        Reissued sent \<Rightarrow> dispatched c' = dispatched c @ [sent] \<and> retry sent = retry marked \<and>
          success \<and>
          reqHeaders sent = AList.update ''Authorization'' (JStr (''Bearer '' @ optText token))
            (reqHeaders marked) \<and>
          reqUrl sent = reqUrl marked \<and> reqMethod sent = reqMethod marked \<and>
          reqData sent = reqData marked
      | Surfaced s \<Rightarrow> dispatched c' = dispatched c \<and> \<not> success)"
proof (cases success)
  case True
  assume a: "refreshResolved e k success token error details marked c = (rs, c')"
  let ?c1 = "logger_log INFO e [JStr ''Token refreshed successfully, retrying request''] c"
  let ?withToken = "marked\<lparr>reqHeaders :=
      AList.update ''Authorization'' (JStr (''Bearer '' @ optText token)) (reqHeaders marked)\<rparr>"
  obtain sent c2 where ap: "api e k ?withToken ?c1 = (sent, c2)"
    by (cases "api e k ?withToken ?c1")
  from a True ap have "rs = Reissued sent" "c' = c2"
    by (simp_all add: refreshResolved_def Let_def)
  with api_sends [OF ap] True show ?thesis by simp
next
  case False
  assume a: "refreshResolved e k success token error details marked c = (rs, c')"
  let ?c2 = "(logger_log WARN e [JStr ''Token refresh failed, logging out user''] c)
      \<lparr>loggedOut := True, location := Some ''/login''\<rparr>"
  obtain s c3 where cl: "classify e error details ?c2 = (s, c3)"
    by (cases "classify e error details ?c2")
  from a False cl have "rs = Surfaced s" "c' = c3"
    by (simp_all add: refreshResolved_def Let_def)
  with classify_frame [of e error details ?c2] cl False show ?thesis by simp
qed

lemma settle_retried:
  assumes "retry sent"
  shows "dispatched (snd (settle w sent c)) = dispatched c \<and>
         refreshCalls (snd (settle w sent c)) = refreshCalls c \<and>
         (\<forall>r q m s. server w sent = Failure (Some r) q m s \<longrightarrow>
            fst (settle w sent c) =
              Rejection (RejectedWith \<lparr>errConfig = Some sent, errResponse = Some r,
                 errRequest = q, errMessage = m, errStack = s\<rparr>))"
proof (cases "server w sent")
  case (Success r)
  then show ?thesis by (simp add: settle.simps [of w sent c])
next
  case (Failure resp q m s)
  let ?error = "\<lparr>errConfig = Some sent, errResponse = resp, errRequest = q,
                  errMessage = m, errStack = s\<rparr>"
  from responseRejected_retried [of ?error sent "envAt w (retry sent)" "clockAt w (retry sent)" c]
    assms
  obtain st c' where r: "responseRejected (envAt w (retry sent)) (clockAt w (retry sent)) ?error c
        = (Settled st, c')"
    and f: "dispatched c' = dispatched c" "refreshCalls c' = refreshCalls c"
    and v: "errResponse ?error \<noteq> None \<longrightarrow> st = RejectedWith ?error"
    by auto
  have "settle w sent c = (Rejection st, c')"
    by (simp add: settle.simps [of w sent c] Failure r)
  with f v Failure show ?thesis by auto
qed

lemma settle_first_401:
  assumes "\<not> retry sent" and "server w sent = Failure (Some r) q m s" and "status r = 401"
    and "refreshSucceeds w"
  shows "\<exists>sent2 c2. settle w sent c = settle w sent2 c2 \<and>
           dispatched c2 = dispatched c @ [sent2] \<and> refreshCalls c2 = refreshCalls c + 1 \<and>
           retry sent2 \<and>
           reqHeaders sent2 =
             AList.update ''Authorization'' (JStr (''Bearer '' @ optText (tokenAfterRefresh w)))
               (reqHeaders sent) \<and>
           reqUrl sent2 = reqUrl sent \<and> reqMethod sent2 = reqMethod sent \<and>
           reqData sent2 = reqData sent"
proof -
  let ?error = "\<lparr>errConfig = Some sent, errResponse = Some r, errRequest = q,
                  errMessage = m, errStack = s\<rparr>"
  let ?marked = "sent\<lparr>retry := True\<rparr>"
  let ?error' = "\<lparr>errConfig = Some ?marked, errResponse = Some r, errRequest = q,
                   errMessage = m, errStack = s\<rparr>"
  from responseRejected_first_401 [of ?error sent r "envAt w (retry sent)" "clockAt w (retry sent)" c]
    assms
  obtain details c' where rej: "responseRejected (envAt w (retry sent)) (clockAt w (retry sent))
        ?error c = (AwaitingRefresh ?error' details ?marked, c')"
    and f: "dispatched c' = dispatched c" "refreshCalls c' = refreshCalls c + 1"
    by auto
  obtain rs c2 where res: "refreshResolved (envAt w True) (clockAt w True) (refreshSucceeds w)
      (tokenAfterRefresh w) ?error' details ?marked c' = (rs, c2)"
    by (cases "refreshResolved (envAt w True) (clockAt w True) (refreshSucceeds w)
      (tokenAfterRefresh w) ?error' details ?marked c'")
  from refreshResolved_counts [OF res] assms(4)
  obtain sent2 where rs: "rs = Reissued sent2"
    and g: "refreshCalls c2 = refreshCalls c'" "dispatched c2 = dispatched c' @ [sent2]"
      "retry sent2 = retry ?marked"
      "reqHeaders sent2 =
         AList.update ''Authorization'' (JStr (''Bearer '' @ optText (tokenAfterRefresh w)))
           (reqHeaders ?marked)"
      "reqUrl sent2 = reqUrl ?marked" "reqMethod sent2 = reqMethod ?marked"
      "reqData sent2 = reqData ?marked"
    by (cases rs) auto
  have "settle w sent c = settle w sent2 c2"
    by (simp add: settle.simps [of w sent c] assms(2) rej res rs)
  moreover from f g have "dispatched c2 = dispatched c @ [sent2]"
    "refreshCalls c2 = refreshCalls c + 1" "retry sent2"
    "reqHeaders sent2 =
       AList.update ''Authorization'' (JStr (''Bearer '' @ optText (tokenAfterRefresh w)))
         (reqHeaders sent)"
    "reqUrl sent2 = reqUrl sent" "reqMethod sent2 = reqMethod sent" "reqData sent2 = reqData sent"
    by simp_all
  ultimately show ?thesis by blast
qed

lemma settle_bounds:
  "length (dispatched (snd (settle w sent c))) \<le> length (dispatched c) + 1 \<and>
   refreshCalls (snd (settle w sent c)) \<le> refreshCalls c + 1"
proof (cases "server w sent")
  case (Success r)
  then show ?thesis by (simp add: settle.simps [of w sent c])
next
  case (Failure resp q m s)
  let ?error = "\<lparr>errConfig = Some sent, errResponse = resp, errRequest = q,
                  errMessage = m, errStack = s\<rparr>"
  obtain st c' where rej: "responseRejected (envAt w (retry sent)) (clockAt w (retry sent))
        ?error c = (st, c')"
    by (cases "responseRejected (envAt w (retry sent)) (clockAt w (retry sent)) ?error c")
  note cnt = responseRejected_counts [OF rej]
  show ?thesis
  proof (cases st)
    case (Settled x)
    with cnt have "settle w sent c = (Rejection x, c')" "dispatched c' = dispatched c"
      "refreshCalls c' = refreshCalls c"
      by (simp_all add: settle.simps [of w sent c] Failure rej)
    then show ?thesis by simp
  next
    case (AwaitingRefresh error' details marked)
    with cnt have f: "dispatched c' = dispatched c" "refreshCalls c' = refreshCalls c + 1"
      by simp_all
    from responseRejected_awaiting [OF rej [unfolded AwaitingRefresh]]
    have mk: "retry marked" by auto
    obtain rs c2 where res: "refreshResolved (envAt w True) (clockAt w True) (refreshSucceeds w)
        (tokenAfterRefresh w) error' details marked c' = (rs, c2)"
      by (cases "refreshResolved (envAt w True) (clockAt w True) (refreshSucceeds w)
        (tokenAfterRefresh w) error' details marked c'")
    note cnt2 = refreshResolved_counts [OF res]
    show ?thesis
    proof (cases rs)
      case (Reissued sent2)
      with cnt2 mk have g: "refreshCalls c2 = refreshCalls c'"
        "dispatched c2 = dispatched c' @ [sent2]" "retry sent2"
        by simp_all
      have "settle w sent c = settle w sent2 c2"
        by (simp add: settle.simps [of w sent c] Failure rej AwaitingRefresh res Reissued)
      with settle_retried [OF g(3), of w c2] f g show ?thesis by simp
    next
      case (Surfaced x)
      with cnt2 have g: "refreshCalls c2 = refreshCalls c'" "dispatched c2 = dispatched c'"
        by simp_all
      have "settle w sent c = (Rejection x, c2)"
        by (simp add: settle.simps [of w sent c] Failure rej AwaitingRefresh res Surfaced)
      with f g show ?thesis by simp
    qed
  qed
qed

text \<open>
  Claim C3. A call through the client hands at most two requests to the backend and
  calls the refresh at most once. A request that is already marked is sent once, with no
  refresh, and a 401 answer to it is rejected to the caller with that response. For a
  request not yet marked whose answer is a 401: the request is marked, the refresh is
  called once, and when the refresh succeeds the same request is sent once more, marked
  and with the header \<^verbatim>\<open>Authorization\<close> set to \<^verbatim>\<open>Bearer\<close> and the token read from the store;
  a 401 answer to this second attempt is rejected to the caller with that response, with
  no further refresh and no further request.
\<close>

theorem at_most_one_retry:
  assumes "api (envAt w (retry config)) (clockAt w (retry config)) config c = (sent1, c1)"
  shows
   "length (dispatched (snd (apiCall w config c))) \<le> length (dispatched c) + 2 \<and>
    refreshCalls (snd (apiCall w config c)) \<le> refreshCalls c + 1 \<and>
    (retry config \<longrightarrow>
       dispatched (snd (apiCall w config c)) = dispatched c @ [sent1] \<and>
       refreshCalls (snd (apiCall w config c)) = refreshCalls c \<and>
       (\<forall>r q m s. server w sent1 = Failure (Some r) q m s \<longrightarrow>
          fst (apiCall w config c) =
            Rejection (RejectedWith \<lparr>errConfig = Some sent1, errResponse = Some r,
               errRequest = q, errMessage = m, errStack = s\<rparr>))) \<and>
    (\<not> retry config \<and> refreshSucceeds w \<and>
     (\<exists>r q m s. server w sent1 = Failure (Some r) q m s \<and> status r = 401) \<longrightarrow>
       (\<exists>sent2.
          dispatched (snd (apiCall w config c)) = dispatched c @ [sent1, sent2] \<and>
          refreshCalls (snd (apiCall w config c)) = refreshCalls c + 1 \<and>
          \<not> retry sent1 \<and> retry sent2 \<and>
          reqHeaders sent2 =
            AList.update ''Authorization'' (JStr (''Bearer '' @ optText (tokenAfterRefresh w)))
              (reqHeaders config) \<and>
          reqUrl sent2 = reqUrl config \<and> reqMethod sent2 = reqMethod config \<and>
          reqData sent2 = reqData config \<and>
          (\<forall>r2 q2 m2 s2. server w sent2 = Failure (Some r2) q2 m2 s2 \<longrightarrow>
             fst (apiCall w config c) =
               Rejection (RejectedWith \<lparr>errConfig = Some sent2, errResponse = Some r2,
                  errRequest = q2, errMessage = m2, errStack = s2\<rparr>))))"
proof -
  have call: "apiCall w config c = settle w sent1 c1"
    by (simp add: apiCall_def assms)
  note a = api_sends [OF assms]
  have bound: "length (dispatched (snd (apiCall w config c))) \<le> length (dispatched c) + 2"
    "refreshCalls (snd (apiCall w config c)) \<le> refreshCalls c + 1"
    using settle_bounds [of w sent1 c1] a by (simp_all add: call)
  have marked: "retry config \<longrightarrow>
       dispatched (snd (apiCall w config c)) = dispatched c @ [sent1] \<and>
       refreshCalls (snd (apiCall w config c)) = refreshCalls c \<and>
       (\<forall>r q m s. server w sent1 = Failure (Some r) q m s \<longrightarrow>
          fst (apiCall w config c) =
            Rejection (RejectedWith \<lparr>errConfig = Some sent1, errResponse = Some r,
               errRequest = q, errMessage = m, errStack = s\<rparr>))"
  proof
    assume "retry config"
    with a have "retry sent1" by simp
    from settle_retried [OF this, of w c1] a show
      "dispatched (snd (apiCall w config c)) = dispatched c @ [sent1] \<and>
       refreshCalls (snd (apiCall w config c)) = refreshCalls c \<and>
       (\<forall>r q m s. server w sent1 = Failure (Some r) q m s \<longrightarrow>
          fst (apiCall w config c) =
            Rejection (RejectedWith \<lparr>errConfig = Some sent1, errResponse = Some r,
               errRequest = q, errMessage = m, errStack = s\<rparr>))"
      by (simp add: call)
  qed
  have fresh: "\<not> retry config \<and> refreshSucceeds w \<and>
     (\<exists>r q m s. server w sent1 = Failure (Some r) q m s \<and> status r = 401) \<longrightarrow>
       (\<exists>sent2.
          dispatched (snd (apiCall w config c)) = dispatched c @ [sent1, sent2] \<and>
          refreshCalls (snd (apiCall w config c)) = refreshCalls c + 1 \<and>
          \<not> retry sent1 \<and> retry sent2 \<and>
          reqHeaders sent2 =
            AList.update ''Authorization'' (JStr (''Bearer '' @ optText (tokenAfterRefresh w)))
              (reqHeaders config) \<and>
          reqUrl sent2 = reqUrl config \<and> reqMethod sent2 = reqMethod config \<and>
          reqData sent2 = reqData config \<and>
          (\<forall>r2 q2 m2 s2. server w sent2 = Failure (Some r2) q2 m2 s2 \<longrightarrow>
             fst (apiCall w config c) =
               Rejection (RejectedWith \<lparr>errConfig = Some sent2, errResponse = Some r2,
                  errRequest = q2, errMessage = m2, errStack = s2\<rparr>)))"
  proof
    assume h: "\<not> retry config \<and> refreshSucceeds w \<and>
       (\<exists>r q m s. server w sent1 = Failure (Some r) q m s \<and> status r = 401)"
    then obtain r q m s where srv: "server w sent1 = Failure (Some r) q m s" "status r = 401"
      by blast
    from h a have nr: "\<not> retry sent1" by simp
    from h have ok: "refreshSucceeds w" by simp
    from settle_first_401 [OF nr srv ok, of c1]
    obtain sent2 c2 where s2: "settle w sent1 c1 = settle w sent2 c2"
      "dispatched c2 = dispatched c1 @ [sent2]" "refreshCalls c2 = refreshCalls c1 + 1"
      "retry sent2"
      "reqHeaders sent2 =
         AList.update ''Authorization'' (JStr (''Bearer '' @ optText (tokenAfterRefresh w)))
           (reqHeaders sent1)"
      "reqUrl sent2 = reqUrl sent1" "reqMethod sent2 = reqMethod sent1"
      "reqData sent2 = reqData sent1"
      by blast
    from settle_retried [OF s2(4), of w c2] s2 a nr
    have "dispatched (snd (apiCall w config c)) = dispatched c @ [sent1, sent2] \<and>
          refreshCalls (snd (apiCall w config c)) = refreshCalls c + 1 \<and>
          \<not> retry sent1 \<and> retry sent2 \<and>
          reqHeaders sent2 =
            AList.update ''Authorization'' (JStr (''Bearer '' @ optText (tokenAfterRefresh w)))
              (reqHeaders config) \<and>
          reqUrl sent2 = reqUrl config \<and> reqMethod sent2 = reqMethod config \<and>
          reqData sent2 = reqData config \<and>
          (\<forall>r2 q2 m2 s2. server w sent2 = Failure (Some r2) q2 m2 s2 \<longrightarrow>
             fst (apiCall w config c) =
               Rejection (RejectedWith \<lparr>errConfig = Some sent2, errResponse = Some r2,
                  errRequest = q2, errMessage = m2, errStack = s2\<rparr>))"
      by (simp add: call)
    then show "\<exists>sent2.
          dispatched (snd (apiCall w config c)) = dispatched c @ [sent1, sent2] \<and>
          refreshCalls (snd (apiCall w config c)) = refreshCalls c + 1 \<and>
          \<not> retry sent1 \<and> retry sent2 \<and>
          reqHeaders sent2 =
            AList.update ''Authorization'' (JStr (''Bearer '' @ optText (tokenAfterRefresh w)))
              (reqHeaders config) \<and>
          reqUrl sent2 = reqUrl config \<and> reqMethod sent2 = reqMethod config \<and>
          reqData sent2 = reqData config \<and>
          (\<forall>r2 q2 m2 s2. server w sent2 = Failure (Some r2) q2 m2 s2 \<longrightarrow>
             fst (apiCall w config c) =
               Rejection (RejectedWith \<lparr>errConfig = Some sent2, errResponse = Some r2,
                  errRequest = q2, errMessage = m2, errStack = s2\<rparr>))"
      by (rule exI)
  qed
  from bound marked fresh show ?thesis by (intro conjI)
qed

text \<open>Against the backend that always answers 401: the overview request is sent twice,
  the second time marked and with the refreshed token, the refresh is called once, and
  the caller receives the rejection with status 401.\<close>

theorem at_most_one_retry_witness:
  "\<not> retry (getRequest ''/api/overview'') \<and> refreshSucceeds always401 \<and>
   map retry (dispatched (snd (apiCall always401 (getRequest ''/api/overview'') freshClient))) =
     [False, True] \<and>
   map reqHeaders (dispatched (snd (apiCall always401 (getRequest ''/api/overview'') freshClient))) =
     [[(''Content-Type'', JStr ''application/json'')],
      [(''Content-Type'', JStr ''application/json''),
       (''Authorization'', JStr ''Bearer fresh-token'')]] \<and>
   refreshCalls (snd (apiCall always401 (getRequest ''/api/overview'') freshClient)) = 1 \<and>
   (case fst (apiCall always401 (getRequest ''/api/overview'') freshClient) of
      Rejection (RejectedWith error) \<Rightarrow> errResponse error = Some unauthorized
    | _ \<Rightarrow> False)"
proof -
  let ?config = "getRequest ''/api/overview''"
  obtain sent1 c1 where ap: "api (envAt always401 (retry ?config)) (clockAt always401 (retry ?config))
      ?config freshClient = (sent1, c1)"
    by (cases "api (envAt always401 (retry ?config)) (clockAt always401 (retry ?config))
      ?config freshClient")
  have fresh: "\<not> retry ?config" by code_simp
  have ok: "refreshSucceeds always401" by code_simp
  have srv: "server always401 cfg = Failure (Some unauthorized) True
      ''Request failed with status code 401'' ''stack''" for cfg
    by (simp add: always401_def)
  have st: "status unauthorized = 401" by (simp add: unauthorized_def)
  have zero: "refreshCalls freshClient = 0" by (simp add: freshClient_def)
  have hdr: "reqHeaders ?config = [(''Content-Type'', JStr ''application/json'')]"
    by (simp add: getRequest_def)
  have tok: "tokenAfterRefresh always401 = Some ''fresh-token''" by (simp add: always401_def)
  have none: "dispatched freshClient = []" by (simp add: freshClient_def)
  from at_most_one_retry [OF ap] fresh ok srv st
  obtain sent2 where d: "dispatched (snd (apiCall always401 ?config freshClient)) =
        dispatched freshClient @ [sent1, sent2]"
    and n: "refreshCalls (snd (apiCall always401 ?config freshClient)) =
        refreshCalls freshClient + 1"
    and r: "\<not> retry sent1" "retry sent2"
    and h: "reqHeaders sent2 = AList.update ''Authorization''
        (JStr (''Bearer '' @ optText (tokenAfterRefresh always401))) (reqHeaders ?config)"
    and f: "fst (apiCall always401 ?config freshClient) =
        Rejection (RejectedWith \<lparr>errConfig = Some sent2, errResponse = Some unauthorized,
          errRequest = True, errMessage = ''Request failed with status code 401'',
          errStack = ''stack''\<rparr>)"
    by blast
  have h1: "reqHeaders sent1 = reqHeaders ?config"
    using api_sends [OF ap] by simp
  have "map retry (dispatched (snd (apiCall always401 ?config freshClient))) = [False, True]"
    using d r none by simp
  moreover have "map reqHeaders (dispatched (snd (apiCall always401 ?config freshClient))) =
     [[(''Content-Type'', JStr ''application/json'')],
      [(''Content-Type'', JStr ''application/json''),
       (''Authorization'', JStr ''Bearer fresh-token'')]]"
    using d none h h1 by (simp add: hdr tok optText_def)
  moreover have "refreshCalls (snd (apiCall always401 ?config freshClient)) = 1"
    using n zero by simp
  moreover have "case fst (apiCall always401 ?config freshClient) of
      Rejection (RejectedWith error) \<Rightarrow> errResponse error = Some unauthorized
    | _ \<Rightarrow> False"
    by (simp add: f)
  ultimately show ?thesis using fresh ok by blast
qed

subsection \<open>Two requests that fail with 401 while one refresh runs\<close>

declare happen.simps [simp del]

lemma happen_RefreshEnded_two:
  assumes "refreshing (store t)" and "waiters (store t) = [a, b]"
  shows "happen e kf (RefreshEnded outcome) t =
     resumeHandler e kf (outcome \<noteq> None) (credential (refreshEnded outcome (store t))) b
       (resumeHandler e kf (outcome \<noteq> None) (credential (refreshEnded outcome (store t))) a
          (t\<lparr>store := refreshEnded outcome (store t)\<rparr>))"
  using assms by (simp add: happen.simps)

lemma happen_first_401:
  assumes "errConfig error = Some cfg" and "\<not> retry cfg"
    and "errResponse error = Some r" and "status r = 401"
  shows "\<exists>details c'.
     happen e kf (RequestFailed error) s =
       s\<lparr>theClient := c', store := refreshAccessToken (nextCaller s) (store s),
         suspended := suspended s @
           [(nextCaller s, error\<lparr>errConfig := Some (cfg\<lparr>retry := True\<rparr>)\<rparr>, details,
             cfg\<lparr>retry := True\<rparr>)],
         nextCaller := nextCaller s + 1\<rparr> \<and>
     dispatched c' = dispatched (theClient s) \<and>
     refreshCalls c' = refreshCalls (theClient s) + 1"
proof -
  from responseRejected_first_401 [OF assms, of e "kf (nextCaller s)" "theClient s"]
  obtain details c' where rej: "responseRejected e (kf (nextCaller s)) error (theClient s) =
      (AwaitingRefresh (error\<lparr>errConfig := Some (cfg\<lparr>retry := True\<rparr>)\<rparr>) details
         (cfg\<lparr>retry := True\<rparr>), c')"
    and f: "dispatched c' = dispatched (theClient s)"
      "refreshCalls c' = refreshCalls (theClient s) + 1"
    by blast
  have "happen e kf (RequestFailed error) s =
       s\<lparr>theClient := c', store := refreshAccessToken (nextCaller s) (store s),
         suspended := suspended s @
           [(nextCaller s, error\<lparr>errConfig := Some (cfg\<lparr>retry := True\<rparr>)\<rparr>, details,
             cfg\<lparr>retry := True\<rparr>)],
         nextCaller := nextCaller s + 1\<rparr>"
    by (simp add: happen.simps rej)
  with f show ?thesis by blast
qed

lemma resumeHandler_success:
  assumes "map_of (suspended s) caller = Some (error, details, marked)"
  shows "\<exists>sent c'.
     resumeHandler e kf True token caller s =
       s\<lparr>theClient := c', suspended := AList.delete caller (suspended s)\<rparr> \<and>
     dispatched c' = dispatched (theClient s) @ [sent] \<and>
     refreshCalls c' = refreshCalls (theClient s) \<and>
     retry sent = retry marked \<and>
     reqHeaders sent = AList.update ''Authorization'' (JStr (''Bearer '' @ optText token))
       (reqHeaders marked) \<and>
     reqUrl sent = reqUrl marked \<and> reqMethod sent = reqMethod marked \<and>
     reqData sent = reqData marked"
proof -
  obtain rs c' where res:
    "refreshResolved e (kf caller) True token error details marked (theClient s) = (rs, c')"
    by (cases "refreshResolved e (kf caller) True token error details marked (theClient s)")
  from refreshResolved_counts [OF res]
  obtain sent where rs: "rs = Reissued sent"
    and g: "refreshCalls c' = refreshCalls (theClient s)"
      "dispatched c' = dispatched (theClient s) @ [sent]" "retry sent = retry marked"
      "reqHeaders sent = AList.update ''Authorization'' (JStr (''Bearer '' @ optText token))
         (reqHeaders marked)"
      "reqUrl sent = reqUrl marked" "reqMethod sent = reqMethod marked"
      "reqData sent = reqData marked"
    by (cases rs) auto
  have "resumeHandler e kf True token caller s =
       s\<lparr>theClient := c', suspended := AList.delete caller (suspended s)\<rparr>"
    by (simp add: resumeHandler_def assms res rs)
  with g show ?thesis by blast
qed

text \<open>
  Claim C2, against the store as the specification describes it. The system is quiet: no
  refresh runs and no handler waits. Two requests that are not yet marked fail with status
  401, one after the other, before the refresh ends. Then the rejection handler has called
  the store twice, and the store has started one refresh: the second caller waits for
  the refresh the first one started, and nothing is sent meanwhile. When that refresh ends
  with a token, the store holds the token, no handler waits any more, no rejection has
  reached a caller, and exactly two requests have been sent since: the two original
  requests, each once, marked, and with the header \<^verbatim>\<open>Authorization\<close> set to \<^verbatim>\<open>Bearer\<close> and
  that token.
\<close>

theorem single_flight_refresh:
  assumes "\<not> refreshing (store s)" and "suspended s = []"
    and "errConfig error1 = Some cfg1" and "\<not> retry cfg1"
    and "errResponse error1 = Some r1" and "status r1 = 401"
    and "errConfig error2 = Some cfg2" and "\<not> retry cfg2"
    and "errResponse error2 = Some r2" and "status r2 = 401"
  shows
   "refreshesPerformed (store (happen e2 kf2 (RequestFailed error2)
        (happen e1 kf1 (RequestFailed error1) s))) = refreshesPerformed (store s) + 1 \<and>
    waiters (store (happen e2 kf2 (RequestFailed error2)
        (happen e1 kf1 (RequestFailed error1) s))) = [nextCaller s, nextCaller s + 1] \<and>
    dispatched (theClient (happen e2 kf2 (RequestFailed error2)
        (happen e1 kf1 (RequestFailed error1) s))) = dispatched (theClient s) \<and>
    refreshCalls (theClient (happen e2 kf2 (RequestFailed error2)
        (happen e1 kf1 (RequestFailed error1) s))) = refreshCalls (theClient s) + 2 \<and>
    refreshesPerformed (store (happen e3 kf3 (RefreshEnded (Some token))
        (happen e2 kf2 (RequestFailed error2) (happen e1 kf1 (RequestFailed error1) s)))) =
      refreshesPerformed (store s) + 1 \<and>
    credential (store (happen e3 kf3 (RefreshEnded (Some token))
        (happen e2 kf2 (RequestFailed error2) (happen e1 kf1 (RequestFailed error1) s)))) =
      Some token \<and>
    \<not> refreshing (store (happen e3 kf3 (RefreshEnded (Some token))
        (happen e2 kf2 (RequestFailed error2) (happen e1 kf1 (RequestFailed error1) s)))) \<and>
    suspended (happen e3 kf3 (RefreshEnded (Some token))
        (happen e2 kf2 (RequestFailed error2) (happen e1 kf1 (RequestFailed error1) s))) = [] \<and>
    rejections (happen e3 kf3 (RefreshEnded (Some token))
        (happen e2 kf2 (RequestFailed error2) (happen e1 kf1 (RequestFailed error1) s))) =
      rejections s \<and>
    (\<exists>sent1 sent2.
       dispatched (theClient (happen e3 kf3 (RefreshEnded (Some token))
         (happen e2 kf2 (RequestFailed error2) (happen e1 kf1 (RequestFailed error1) s)))) =
         dispatched (theClient s) @ [sent1, sent2] \<and>
       retry sent1 \<and> retry sent2 \<and>
       reqHeaders sent1 =
         AList.update ''Authorization'' (JStr (''Bearer '' @ token)) (reqHeaders cfg1) \<and>
       reqHeaders sent2 =
         AList.update ''Authorization'' (JStr (''Bearer '' @ token)) (reqHeaders cfg2) \<and>
       reqUrl sent1 = reqUrl cfg1 \<and> reqMethod sent1 = reqMethod cfg1 \<and>
       reqData sent1 = reqData cfg1 \<and>
       reqUrl sent2 = reqUrl cfg2 \<and> reqMethod sent2 = reqMethod cfg2 \<and>
       reqData sent2 = reqData cfg2)"
proof -
  let ?n = "nextCaller s"
  let ?m1 = "cfg1\<lparr>retry := True\<rparr>" and ?m2 = "cfg2\<lparr>retry := True\<rparr>"
  let ?s1 = "happen e1 kf1 (RequestFailed error1) s"
  let ?s2 = "happen e2 kf2 (RequestFailed error2) ?s1"
  let ?s3 = "happen e3 kf3 (RefreshEnded (Some token)) ?s2"
  from happen_first_401 [OF assms(3-6), of e1 kf1 s]
  obtain d1 c1 where s1: "?s1 =
       s\<lparr>theClient := c1, store := refreshAccessToken ?n (store s),
         suspended := suspended s @ [(?n, error1\<lparr>errConfig := Some ?m1\<rparr>, d1, ?m1)],
         nextCaller := ?n + 1\<rparr>"
    and f1: "dispatched c1 = dispatched (theClient s)"
      "refreshCalls c1 = refreshCalls (theClient s) + 1"
    by blast
  have p1: "theClient ?s1 = c1" "nextCaller ?s1 = ?n + 1" "rejections ?s1 = rejections s"
    "suspended ?s1 = [(?n, error1\<lparr>errConfig := Some ?m1\<rparr>, d1, ?m1)]"
    "store ?s1 = (store s)\<lparr>refreshing := True, waiters := [?n],
        refreshesPerformed := refreshesPerformed (store s) + 1\<rparr>"
    unfolding s1 using assms(1,2) by (simp_all add: refreshAccessToken_def)
  from happen_first_401 [OF assms(7-10), of e2 kf2 ?s1]
  obtain d2 c2 where s2: "?s2 =
       ?s1\<lparr>theClient := c2, store := refreshAccessToken (nextCaller ?s1) (store ?s1),
         suspended := suspended ?s1 @
           [(nextCaller ?s1, error2\<lparr>errConfig := Some ?m2\<rparr>, d2, ?m2)],
         nextCaller := nextCaller ?s1 + 1\<rparr>"
    and f2: "dispatched c2 = dispatched (theClient ?s1)"
      "refreshCalls c2 = refreshCalls (theClient ?s1) + 1"
    by blast
  have p2: "theClient ?s2 = c2" "rejections ?s2 = rejections s"
    "suspended ?s2 = [(?n, error1\<lparr>errConfig := Some ?m1\<rparr>, d1, ?m1),
                      (?n + 1, error2\<lparr>errConfig := Some ?m2\<rparr>, d2, ?m2)]"
    "store ?s2 = (store s)\<lparr>refreshing := True, waiters := [?n, ?n + 1],
        refreshesPerformed := refreshesPerformed (store s) + 1\<rparr>"
    by (simp_all add: s2 p1 refreshAccessToken_def)
  have q2: "dispatched c2 = dispatched (theClient s)"
    "refreshCalls c2 = refreshCalls (theClient s) + 2"
    using f1 f2 p1 by simp_all
  let ?t0 = "?s2\<lparr>store := refreshEnded (Some token) (store ?s2)\<rparr>"
  have t0: "theClient ?t0 = c2" "rejections ?t0 = rejections s"
    "suspended ?t0 = [(?n, error1\<lparr>errConfig := Some ?m1\<rparr>, d1, ?m1),
                      (?n + 1, error2\<lparr>errConfig := Some ?m2\<rparr>, d2, ?m2)]"
    "store ?t0 = (store s)\<lparr>credential := Some token, refreshing := False, waiters := [],
        refreshesPerformed := refreshesPerformed (store s) + 1\<rparr>"
    by (simp_all add: p2 refreshEnded_def)
  have s3: "?s3 = resumeHandler e3 kf3 True (Some token) (?n + 1)
               (resumeHandler e3 kf3 True (Some token) ?n ?t0)"
    using happen_RefreshEnded_two [of ?s2 ?n "?n + 1" e3 kf3 "Some token"]
    by (simp add: p2 refreshEnded_def)
  have look1: "map_of (suspended ?t0) ?n = Some (error1\<lparr>errConfig := Some ?m1\<rparr>, d1, ?m1)"
    by (simp add: p2)
  from resumeHandler_success [OF look1, of e3 kf3 "Some token"]
  obtain sent1 c3 where r1: "resumeHandler e3 kf3 True (Some token) ?n ?t0 =
        ?t0\<lparr>theClient := c3, suspended := AList.delete ?n (suspended ?t0)\<rparr>"
    and g1: "dispatched c3 = dispatched (theClient ?t0) @ [sent1]"
      "refreshCalls c3 = refreshCalls (theClient ?t0)" "retry sent1 = retry ?m1"
      "reqHeaders sent1 = AList.update ''Authorization''
         (JStr (''Bearer '' @ optText (Some token))) (reqHeaders ?m1)"
      "reqUrl sent1 = reqUrl ?m1" "reqMethod sent1 = reqMethod ?m1" "reqData sent1 = reqData ?m1"
    by blast
  let ?t1 = "?t0\<lparr>theClient := c3, suspended := AList.delete ?n (suspended ?t0)\<rparr>"
  have t1: "theClient ?t1 = c3" "rejections ?t1 = rejections s"
    "suspended ?t1 = [(?n + 1, error2\<lparr>errConfig := Some ?m2\<rparr>, d2, ?m2)]"
    "store ?t1 = store ?t0"
    by (simp_all add: p2 refreshEnded_def)
  have look2: "map_of (suspended ?t1) (?n + 1) = Some (error2\<lparr>errConfig := Some ?m2\<rparr>, d2, ?m2)"
    by (simp add: p2)
  from resumeHandler_success [OF look2, of e3 kf3 "Some token"]
  obtain sent2 c4 where r2: "resumeHandler e3 kf3 True (Some token) (?n + 1) ?t1 =
        ?t1\<lparr>theClient := c4, suspended := AList.delete (?n + 1) (suspended ?t1)\<rparr>"
    and g2: "dispatched c4 = dispatched (theClient ?t1) @ [sent2]"
      "refreshCalls c4 = refreshCalls (theClient ?t1)" "retry sent2 = retry ?m2"
      "reqHeaders sent2 = AList.update ''Authorization''
         (JStr (''Bearer '' @ optText (Some token))) (reqHeaders ?m2)"
      "reqUrl sent2 = reqUrl ?m2" "reqMethod sent2 = reqMethod ?m2" "reqData sent2 = reqData ?m2"
    by blast
  have fin: "?s3 = ?t1\<lparr>theClient := c4, suspended := AList.delete (?n + 1) (suspended ?t1)\<rparr>"
    unfolding s3 r1 r2 ..
  have e: "theClient ?s3 = c4" "rejections ?s3 = rejections s" "suspended ?s3 = []"
    "store ?s3 = (store s)\<lparr>credential := Some token, refreshing := False, waiters := [],
        refreshesPerformed := refreshesPerformed (store s) + 1\<rparr>"
    unfolding fin by (simp_all add: p2 refreshEnded_def)
  have d: "dispatched c4 = dispatched (theClient s) @ [sent1, sent2]"
    using g1(1) g2(1) q2 by (simp add: p2)
  have before: "refreshesPerformed (store ?s2) = refreshesPerformed (store s) + 1"
    "waiters (store ?s2) = [?n, ?n + 1]"
    "dispatched (theClient ?s2) = dispatched (theClient s)"
    "refreshCalls (theClient ?s2) = refreshCalls (theClient s) + 2"
    using q2 by (simp_all add: p2)
  have after: "refreshesPerformed (store ?s3) = refreshesPerformed (store s) + 1"
    "credential (store ?s3) = Some token" "\<not> refreshing (store ?s3)"
    "suspended ?s3 = []" "rejections ?s3 = rejections s"
    by (simp_all add: e)
  have sent: "dispatched (theClient ?s3) = dispatched (theClient s) @ [sent1, sent2] \<and>
       retry sent1 \<and> retry sent2 \<and>
       reqHeaders sent1 =
         AList.update ''Authorization'' (JStr (''Bearer '' @ token)) (reqHeaders cfg1) \<and>
       reqHeaders sent2 =
         AList.update ''Authorization'' (JStr (''Bearer '' @ token)) (reqHeaders cfg2) \<and>
       reqUrl sent1 = reqUrl cfg1 \<and> reqMethod sent1 = reqMethod cfg1 \<and>
       reqData sent1 = reqData cfg1 \<and>
       reqUrl sent2 = reqUrl cfg2 \<and> reqMethod sent2 = reqMethod cfg2 \<and>
       reqData sent2 = reqData cfg2"
    using d g1 g2 by (simp add: e(1) optText_def)
  then have ex: "\<exists>sent1 sent2.
       dispatched (theClient ?s3) = dispatched (theClient s) @ [sent1, sent2] \<and>
       retry sent1 \<and> retry sent2 \<and>
       reqHeaders sent1 =
         AList.update ''Authorization'' (JStr (''Bearer '' @ token)) (reqHeaders cfg1) \<and>
       reqHeaders sent2 =
         AList.update ''Authorization'' (JStr (''Bearer '' @ token)) (reqHeaders cfg2) \<and>
       reqUrl sent1 = reqUrl cfg1 \<and> reqMethod sent1 = reqMethod cfg1 \<and>
       reqData sent1 = reqData cfg1 \<and>
       reqUrl sent2 = reqUrl cfg2 \<and> reqMethod sent2 = reqMethod cfg2 \<and>
       reqData sent2 = reqData cfg2"
    by blast
  from before after ex show ?thesis by (intro conjI)
qed

text \<open>The overview request and the configuration request both fail with 401 while the
  store holds a stale token; the refresh ends with \<^verbatim>\<open>fresh-token\<close>. One refresh was
  started, and the two requests were sent again, in the order of their failures, marked
  and with the fresh token.\<close>

theorem single_flight_refresh_witness:
  "\<not> refreshing (store quietSystem) \<and> suspended quietSystem = [] \<and>
   \<not> retry (getRequest ''/api/overview'') \<and> \<not> retry (getRequest ''/api/config'') \<and>
   refreshesPerformed (store twoFailedThenRefreshed) = 1 \<and>
   credential (store twoFailedThenRefreshed) = Some ''fresh-token'' \<and>
   suspended twoFailedThenRefreshed = [] \<and>
   map reqUrl (dispatched (theClient twoFailedThenRefreshed)) =
     [Some ''/api/overview'', Some ''/api/config''] \<and>
   map retry (dispatched (theClient twoFailedThenRefreshed)) = [True, True] \<and>
   map (\<lambda>sent. map_of (reqHeaders sent) ''Authorization'')
       (dispatched (theClient twoFailedThenRefreshed)) =
     [Some (JStr ''Bearer fresh-token''), Some (JStr ''Bearer fresh-token'')]"
proof -
  let ?r = "\<lparr>status = 401, statusText = ''failed'',
             respData = JObj [(''detail'', JStr ''backend says no'')], respDataText = ''{}''\<rparr>"
  have q: "\<not> refreshing (store quietSystem)" "suspended quietSystem = []"
    by (simp_all add: quietSystem_def)
  have c1: "errConfig (failedWith 401 (getRequest ''/api/overview'')) =
      Some (getRequest ''/api/overview'')"
    and c2: "errConfig (failedWith 401 (getRequest ''/api/config'')) =
      Some (getRequest ''/api/config'')"
    by (simp_all add: failedWith_def)
  have n1: "\<not> retry (getRequest ''/api/overview'')"
    and n2: "\<not> retry (getRequest ''/api/config'')"
    by (simp_all add: getRequest_def)
  have r1: "errResponse (failedWith 401 (getRequest ''/api/overview'')) = Some ?r"
    and r2: "errResponse (failedWith 401 (getRequest ''/api/config'')) = Some ?r"
    by (simp_all add: failedWith_def)
  have st: "status ?r = 401" by simp
  have zero: "refreshesPerformed (store quietSystem) = 0" by (simp add: quietSystem_def)
  note inst = single_flight_refresh [OF q c1 n1 r1 st c2 n2 r2 st,
      where ?e1.0 = sampleEnv and ?kf1.0 = callerClock and ?e2.0 = sampleEnv
        and ?kf2.0 = callerClock and ?e3.0 = sampleEnv and ?kf3.0 = callerClock
        and token = "''fresh-token''",
      folded twoFailedThenRefreshed_def]
  from inst zero have "refreshesPerformed (store twoFailedThenRefreshed) = 1"
    and "credential (store twoFailedThenRefreshed) = Some ''fresh-token''"
    and "suspended twoFailedThenRefreshed = []"
    by simp_all
  moreover have "map reqUrl (dispatched (theClient twoFailedThenRefreshed)) =
     [Some ''/api/overview'', Some ''/api/config'']"
    by code_simp
  moreover have "map retry (dispatched (theClient twoFailedThenRefreshed)) = [True, True]"
    by code_simp
  moreover have "map (\<lambda>sent. map_of (reqHeaders sent) ''Authorization'')
       (dispatched (theClient twoFailedThenRefreshed)) =
     [Some (JStr ''Bearer fresh-token''), Some (JStr ''Bearer fresh-token'')]"
    by code_simp
  ultimately show ?thesis using q n1 n2 by blast
qed

end
